theory Spec2Isabelle
  imports Main "HOL-Library.Word" "HOL-Library.Multiset"
begin

unbundle bit_operations_syntax

text \<open>
  A shallow embedding of \<^verbatim>\<open>class WiFiManager\<close> (its implementation, \<^verbatim>\<open>WiFiManager.h\<close> and
  \<^verbatim>\<open>wm_config.h\<close>): the connection and portal state machine with its event handlers, the
  teardown of the HTTP and DNS servers, the parameter registry, the scan filter and the
  captive DNS responder. Platform calls are represented by their outcomes, clock
  readings by arguments, and callbacks by the list of those invoked.
\<close>

section \<open>Data model (wm_config.h, WiFiManager.h)\<close>

text \<open>The two enums of \<^verbatim>\<open>wm_config.h\<close>, constructor for enumerator, in declaration order.\<close>

datatype wm_state_t =
    WM_STATE_INIT
  | WM_STATE_TRY_STA
  | WM_STATE_RUN_STA
  | WM_STATE_START_PORTAL
  | WM_STATE_RUN_PORTAL
  | WM_STATE_PORTAL_ABORT
  | WM_STATE_PORTAL_TIMEOUT

datatype wl_status_t =
    WL_IDLE_STATUS
  | WL_NO_SSID_AVAIL
  | WL_SCAN_COMPLETED
  | WL_CONNECTED
  | WL_CONNECT_FAILED
  | WL_CONNECTION_LOST
  | WL_WRONG_PASSWORD
  | WL_DISCONNECTED

text \<open>
  The disconnect reason carried by \<^verbatim>\<open>wifi_event_sta_disconnected_t\<close>. The enumeration
  \<^verbatim>\<open>wifi_err_reason_t\<close> belongs to the network stack's headers; the nine enumerators that
  the switch in \<^verbatim>\<open>wifiEventHandler\<close> names are constructors of their own, and
  \<open>WIFI_REASON_OTHER\<close> stands for every reason code that is none of the nine
  (the \<^verbatim>\<open>default:\<close> label).
\<close>

datatype wifi_err_reason_t =
    WIFI_REASON_NO_AP_FOUND
  | WIFI_REASON_NO_AP_FOUND_W_COMPATIBLE_SECURITY
  | WIFI_REASON_NO_AP_FOUND_IN_AUTHMODE_THRESHOLD
  | WIFI_REASON_NO_AP_FOUND_IN_RSSI_THRESHOLD
  | WIFI_REASON_AUTH_EXPIRE
  | WIFI_REASON_AUTH_LEAVE
  | WIFI_REASON_4WAY_HANDSHAKE_TIMEOUT
  | WIFI_REASON_GROUP_KEY_UPDATE_TIMEOUT
  | WIFI_REASON_802_1X_AUTH_FAILED
  | WIFI_REASON_OTHER

text \<open>
  Events of the \<^verbatim>\<open>WIFI_EVENT\<close> and \<^verbatim>\<open>IP_EVENT\<close> bases, as the two handlers switch on
  them. An event carries the part of its \<^verbatim>\<open>event_data\<close> that the handler reads for
  anything but logging: the reason of a station disconnect. The last constructor of
  each type is every event id without a case label.
\<close>

datatype wifi_event =
    WIFI_EVENT_STA_START
  | WIFI_EVENT_STA_CONNECTED
  | WIFI_EVENT_STA_DISCONNECTED wifi_err_reason_t
  | WIFI_EVENT_AP_START
  | WIFI_EVENT_AP_STOP
  | WIFI_EVENT_AP_STACONNECTED
  | WIFI_EVENT_AP_STADISCONNECTED
  | WIFI_EVENT_UNHANDLED

datatype ip_event =
    IP_EVENT_STA_GOT_IP
  | IP_EVENT_STA_LOST_IP
  | IP_EVENT_AP_STAIPASSIGNED
  | IP_EVENT_UNHANDLED

datatype event = WifiEvent wifi_event | IpEvent ip_event

text \<open>The application callbacks a handler may invoke; an invocation is an observable effect.\<close>

datatype callback = SaveConfigCallback | APCallback

text \<open>
  A scan record (\<^verbatim>\<open>wifi_ap_record_t\<close>). \<open>ssid\<close> is the content of the NUL-terminated
  \<^verbatim>\<open>uint8_t ssid[33]\<close> (what \<^verbatim>\<open>strlen\<close> and \<^verbatim>\<open>strcmp\<close> see), \<open>rssi\<close> is the
  \<^verbatim>\<open>int8_t\<close> signal strength, read with \<open>sint\<close>.
\<close>

record wifi_ap_record_t =
  ssid :: string
  rssi :: "8 word"
  primary :: nat
  authmode :: nat

text \<open>\<^verbatim>\<open>WiFiManagerParameter\<close>: the private fields of the class.\<close>

record WiFiManagerParameter =
  p_id :: string
  p_placeholder :: string
  p_label :: string
  p_value :: string
  p_customHTML :: string
  p_length :: int
  p_type :: int

text \<open>
  The fields of \<^verbatim>\<open>class WiFiManager\<close> that the modelled operations read or write,
  under the source's names without the leading underscore. Timestamps are the
  \<^verbatim>\<open>int64_t\<close> microsecond readings of \<^verbatim>\<open>esp_timer_get_time()\<close>, which are non-negative
  and monotonic, so that the differences the code takes stay in range and are taken
  on \<open>int\<close>; the two timeouts are \<^verbatim>\<open>uint32_t\<close>. A callback field is \<open>True\<close> when the
  \<^verbatim>\<open>std::function\<close> holds a target, a handle is \<open>None\<close> when it is \<^verbatim>\<open>nullptr\<close>.
\<close>

record WiFiManager =
  state :: wm_state_t
  connectTimeout :: "32 word"
  configPortalTimeout :: "32 word"
  configPortalBlocking :: bool
  minimumQuality :: int
  removeDuplicateAPs :: bool
  rawScanResults :: "wifi_ap_record_t list"
  captivePortalEnable :: bool
  params :: "WiFiManagerParameter list"
  apCallback :: bool
  saveConfigCallback :: bool
  httpServer :: "nat option"
  lastConxResult :: wl_status_t
  portalAbortResult :: bool
  configPortalStart :: int
  connectStart :: int
  dnsTaskHandle :: "nat option"
  dnsSocket :: int
  dnsRunning :: bool
  cleanupInProgress :: bool

section \<open>The state machine\<close>

text \<open>
  \<^verbatim>\<open>setConfigPortalTimeout\<close> and \<^verbatim>\<open>setConnectTimeout\<close>: the product
  \<^verbatim>\<open>seconds * 1000000ULL\<close> is taken in 64 bits and stored in a \<^verbatim>\<open>uint32_t\<close> field.
\<close>

definition setConfigPortalTimeout :: "32 word \<Rightarrow> WiFiManager \<Rightarrow> WiFiManager" where
  "setConfigPortalTimeout seconds m =
     m\<lparr>configPortalTimeout := word_of_nat (unat seconds * 1000000)\<rparr>"

definition setConnectTimeout :: "32 word \<Rightarrow> WiFiManager \<Rightarrow> WiFiManager" where
  "setConnectTimeout seconds m =
     m\<lparr>connectTimeout := word_of_nat (unat seconds * 1000000)\<rparr>"

text \<open>
  \<^verbatim>\<open>updateState\<close>; \<open>now\<close> is the value \<^verbatim>\<open>esp_timer_get_time()\<close> returns in the call.
  The comparison of the \<^verbatim>\<open>int64_t\<close> difference with the \<^verbatim>\<open>uint32_t\<close> timeout is
  taken in \<^verbatim>\<open>int64_t\<close>, hence \<open>uint\<close>.
\<close>

definition updateState :: "int \<Rightarrow> WiFiManager \<Rightarrow> WiFiManager" where
  "updateState now m =
     (case state m of
        WM_STATE_TRY_STA \<Rightarrow>
          if now - connectStart m > uint (connectTimeout m)
          then m\<lparr>lastConxResult := WL_CONNECT_FAILED, state := WM_STATE_START_PORTAL\<rparr>
          else m
      | WM_STATE_RUN_PORTAL \<Rightarrow>
          if configPortalTimeout m > 0
             \<and> now - configPortalStart m > uint (configPortalTimeout m)
          then m\<lparr>state := WM_STATE_PORTAL_TIMEOUT\<rparr>
          else m
      | _ \<Rightarrow> m)"

text \<open>\<^verbatim>\<open>process\<close>: one update, then whether the machine is still working.\<close>

definition process :: "int \<Rightarrow> WiFiManager \<Rightarrow> bool \<times> WiFiManager" where
  "process now m =
     (let m' = updateState now m
      in (state m' = WM_STATE_TRY_STA \<or> state m' = WM_STATE_RUN_PORTAL, m'))"

text \<open>Repeated calls of \<^verbatim>\<open>process\<close>, one clock reading for each, oldest first.\<close>

fun process_calls :: "int list \<Rightarrow> WiFiManager \<Rightarrow> WiFiManager" where
  "process_calls [] m = m"
| "process_calls (now # rest) m = process_calls rest (snd (process now m))"

text \<open>
  The mapping of the disconnect reason in \<^verbatim>\<open>wifiEventHandler\<close>
  (the inner switch of case \<^verbatim>\<open>WIFI_EVENT_STA_DISCONNECTED\<close>).
\<close>

fun disconnect_result :: "wifi_err_reason_t \<Rightarrow> wl_status_t" where
  "disconnect_result WIFI_REASON_NO_AP_FOUND = WL_NO_SSID_AVAIL"
| "disconnect_result WIFI_REASON_NO_AP_FOUND_W_COMPATIBLE_SECURITY = WL_NO_SSID_AVAIL"
| "disconnect_result WIFI_REASON_NO_AP_FOUND_IN_AUTHMODE_THRESHOLD = WL_NO_SSID_AVAIL"
| "disconnect_result WIFI_REASON_NO_AP_FOUND_IN_RSSI_THRESHOLD = WL_NO_SSID_AVAIL"
| "disconnect_result WIFI_REASON_AUTH_EXPIRE = WL_WRONG_PASSWORD"
| "disconnect_result WIFI_REASON_AUTH_LEAVE = WL_WRONG_PASSWORD"
| "disconnect_result WIFI_REASON_4WAY_HANDSHAKE_TIMEOUT = WL_WRONG_PASSWORD"
| "disconnect_result WIFI_REASON_GROUP_KEY_UPDATE_TIMEOUT = WL_WRONG_PASSWORD"
| "disconnect_result WIFI_REASON_802_1X_AUTH_FAILED = WL_WRONG_PASSWORD"
| "disconnect_result WIFI_REASON_OTHER = WL_CONNECT_FAILED"

text \<open>
  \<^verbatim>\<open>wifiEventHandler\<close> and \<^verbatim>\<open>ipEventHandler\<close>. Both are registered with
  \<^verbatim>\<open>arg = this\<close> (\<^verbatim>\<open>setupWiFi\<close>), so the manager is there when they run. A handler
  returns the manager it leaves and the callbacks it invoked, in order.
\<close>

fun wifiEventHandler :: "WiFiManager \<Rightarrow> wifi_event \<Rightarrow> WiFiManager \<times> callback list" where
  "wifiEventHandler m (WIFI_EVENT_STA_DISCONNECTED reason) =
     (let m1 = m\<lparr>lastConxResult := disconnect_result reason\<rparr>
      in (if state m1 = WM_STATE_TRY_STA then m1\<lparr>state := WM_STATE_START_PORTAL\<rparr> else m1,
          []))"
| "wifiEventHandler m _ = (m, [])"

fun ipEventHandler :: "WiFiManager \<Rightarrow> ip_event \<Rightarrow> WiFiManager \<times> callback list" where
  "ipEventHandler m IP_EVENT_STA_GOT_IP =
     (m\<lparr>lastConxResult := WL_CONNECTED, state := WM_STATE_RUN_STA\<rparr>,
      if saveConfigCallback m then [SaveConfigCallback] else [])"
| "ipEventHandler m IP_EVENT_STA_LOST_IP = (m\<lparr>lastConxResult := WL_CONNECTION_LOST\<rparr>, [])"
| "ipEventHandler m _ = (m, [])"

text \<open>What reaches the manager from outside a blocking call: a tick or an event.\<close>

datatype input = Tick int | Event event

fun deliver :: "WiFiManager \<Rightarrow> input \<Rightarrow> WiFiManager \<times> callback list" where
  "deliver m (Tick now) = (snd (process now m), [])"
| "deliver m (Event (WifiEvent e)) = wifiEventHandler m e"
| "deliver m (Event (IpEvent e)) = ipEventHandler m e"

fun run :: "WiFiManager \<Rightarrow> input list \<Rightarrow> WiFiManager \<times> callback list" where
  "run m [] = (m, [])"
| "run m (i # rest) =
     (let (m1, cs1) = deliver m i; (m2, cs2) = run m1 rest in (m2, cs1 @ cs2))"

text \<open>
  The blocking wait of \<^verbatim>\<open>startConfigPortalInternal\<close>:
  \<^verbatim>\<open>while (_state == WM_STATE_RUN_PORTAL || _state == WM_STATE_TRY_STA)\<close>. An iteration
  is given by what it observes: the clock reading inside \<^verbatim>\<open>updateState\<close>, the events
  the event task delivers during \<^verbatim>\<open>vTaskDelay\<close>, and the clock reading of the timeout
  check. The loop need not end, so the result is \<open>None\<close> when the observations are
  used up while the loop condition still holds.
\<close>

definition portalTimedOut :: "int \<Rightarrow> WiFiManager \<Rightarrow> bool" where
  "portalTimedOut now m \<longleftrightarrow>
     configPortalTimeout m > 0 \<and> now - configPortalStart m > uint (configPortalTimeout m)"

fun portalWait :: "WiFiManager \<Rightarrow> (int \<times> event list \<times> int) list \<Rightarrow> (WiFiManager \<times> callback list) option" where
  "portalWait m [] =
     (if state m = WM_STATE_RUN_PORTAL \<or> state m = WM_STATE_TRY_STA then None else Some (m, []))"
| "portalWait m ((t1, evs, t2) # rest) =
     (if state m = WM_STATE_RUN_PORTAL \<or> state m = WM_STATE_TRY_STA then
        (let (m1, cs1) = run (updateState t1 m) (map Event evs)
         in if portalTimedOut t2 m1
            then Some (m1\<lparr>state := WM_STATE_PORTAL_TIMEOUT\<rparr>, cs1)
            else (case portalWait m1 rest of
                    None \<Rightarrow> None
                  | Some (m2, cs2) \<Rightarrow> Some (m2, cs1 @ cs2)))
      else Some (m, []))"

text \<open>
  The constructor. The four \<^verbatim>\<open>CONFIG_WM_*\<close> values behind
  \<^verbatim>\<open>WM_DEFAULT_CONNECT_TIMEOUT\<close>, \<^verbatim>\<open>WM_DEFAULT_PORTAL_TIMEOUT\<close>, \<^verbatim>\<open>WM_MIN_QUALITY\<close> and
  \<^verbatim>\<open>CONFIG_WM_REMOVE_DUP_APS\<close> come from the build configuration and are parameters.
\<close>

definition WiFiManager_ctor :: "nat \<Rightarrow> nat \<Rightarrow> int \<Rightarrow> bool \<Rightarrow> WiFiManager" where
  "WiFiManager_ctor default_connect_timeout default_portal_timeout min_quality remove_dup_aps =
     \<lparr> state = WM_STATE_INIT,
       connectTimeout = word_of_nat (default_connect_timeout * 1000000),
       configPortalTimeout = word_of_nat (default_portal_timeout * 1000000),
       configPortalBlocking = True,
       minimumQuality = min_quality,
       removeDuplicateAPs = remove_dup_aps,
       rawScanResults = [],
       captivePortalEnable = True,
       params = [],
       apCallback = False,
       saveConfigCallback = False,
       httpServer = None,
       lastConxResult = WL_IDLE_STATUS,
       portalAbortResult = False,
       configPortalStart = 0,
       connectStart = 0,
       dnsTaskHandle = None,
       dnsSocket = - 1,
       dnsRunning = False,
       cleanupInProgress = False \<rparr>"

section \<open>Starting and stopping the servers\<close>

text \<open>
  \<^verbatim>\<open>startHTTPServer\<close> and \<^verbatim>\<open>startDNSServer\<close>. What the platform answers is a
  parameter: the handle \<^verbatim>\<open>httpd_start\<close> stores (\<open>None\<close> when it fails) and the task
  handle \<^verbatim>\<open>xTaskCreate\<close> stores (\<open>None\<close> when the result is not \<^verbatim>\<open>pdPASS\<close>).
\<close>

definition startHTTPServer :: "nat option \<Rightarrow> WiFiManager \<Rightarrow> bool \<times> WiFiManager" where
  "startHTTPServer httpd_start m =
     (if httpServer m \<noteq> None then (True, m)
      else (case httpd_start of
              None \<Rightarrow> (False, m)
            | Some h \<Rightarrow> (True, m\<lparr>httpServer := Some h\<rparr>)))"

definition startDNSServer :: "nat option \<Rightarrow> WiFiManager \<Rightarrow> bool \<times> WiFiManager" where
  "startDNSServer xTaskCreate m =
     (if dnsRunning m then (True, m)
      else (case xTaskCreate of
              None \<Rightarrow> (False, m\<lparr>dnsRunning := False\<rparr>)
            | Some t \<Rightarrow> (True, m\<lparr>dnsRunning := True, dnsTaskHandle := Some t\<rparr>)))"

text \<open>
  \<^verbatim>\<open>startConfigPortalInternal\<close>. \<open>now\<close> is the clock reading that becomes the portal
  start marker; the outcomes of \<^verbatim>\<open>setupWiFi\<close>, \<^verbatim>\<open>startAP\<close>, \<^verbatim>\<open>httpd_start\<close> and
  \<^verbatim>\<open>xTaskCreate\<close> are parameters, and \<open>obs\<close> is what the blocking wait observes.
  The result is \<open>None\<close> when the blocking wait does not end within \<open>obs\<close>.
\<close>

definition startConfigPortalInternal ::
  "bool \<Rightarrow> bool \<Rightarrow> nat option \<Rightarrow> nat option \<Rightarrow> int \<Rightarrow> (int \<times> event list \<times> int) list
     \<Rightarrow> WiFiManager \<Rightarrow> (bool \<times> WiFiManager \<times> callback list) option" where
  "startConfigPortalInternal setupWiFi_ok startAP_ok httpd_start xTaskCreate now obs m =
     (let m1 = m\<lparr>state := WM_STATE_START_PORTAL, portalAbortResult := False,
                  configPortalStart := now\<rparr>
      in if \<not> setupWiFi_ok then Some (False, m1, [])
         else if \<not> startAP_ok then Some (False, m1, [])
         else (case startHTTPServer httpd_start m1 of
                 (False, m2) \<Rightarrow> Some (False, m2, [])
               | (True, m2) \<Rightarrow>
                   (let m3 = (if captivePortalEnable m2
                              then snd (startDNSServer xTaskCreate m2) else m2);
                        m4 = m3\<lparr>state := WM_STATE_RUN_PORTAL\<rparr>;
                        cs = (if apCallback m4 then [APCallback] else [])
                    in if configPortalBlocking m4
                       then (case portalWait m4 obs of
                               None \<Rightarrow> None
                             | Some (m5, cs') \<Rightarrow>
                                 Some (state m5 = WM_STATE_RUN_STA, m5, cs @ cs'))
                       else Some (True, m4, cs))))"

text \<open>
  \<^verbatim>\<open>stopHTTPServer\<close>; \<open>stop_ok\<close> says whether \<^verbatim>\<open>httpd_stop\<close> returns \<^verbatim>\<open>ESP_OK\<close>.
  The handle is cleared on both branches.
\<close>

definition stopHTTPServer :: "bool \<Rightarrow> WiFiManager \<Rightarrow> WiFiManager" where
  "stopHTTPServer stop_ok m =
     (case httpServer m of
        Some h \<Rightarrow> (if stop_ok then m\<lparr>httpServer := None\<rparr> else m\<lparr>httpServer := None\<rparr>)
      | None \<Rightarrow> m)"

text \<open>
  The DNS task leaves through its \<^verbatim>\<open>cleanup:\<close> label, where it closes the socket when
  it is open and clears its own handle. \<open>dnsTaskExit\<close> is that effect on the manager.
\<close>

definition dnsTaskExit :: "WiFiManager \<Rightarrow> WiFiManager" where
  "dnsTaskExit m =
     (let m1 = (if dnsSocket m \<ge> 0 then m\<lparr>dnsSocket := - 1\<rparr> else m)
      in m1\<lparr>dnsTaskHandle := None\<rparr>)"

text \<open>
  The wait in \<^verbatim>\<open>stopDNSServer\<close>:
  \<^verbatim>\<open>while (_dnsTaskHandle && timeout-- > 0) vTaskDelay(...)\<close>. The first argument is the
  counter; \<open>gone k\<close> says whether the DNS task has left by the time the condition is
  evaluated for the \<open>k\<close>-th time.
\<close>

fun dnsTaskWait :: "nat \<Rightarrow> (nat \<Rightarrow> bool) \<Rightarrow> nat \<Rightarrow> WiFiManager \<Rightarrow> WiFiManager" where
  "dnsTaskWait 0 gone k m =
     (if dnsTaskHandle m \<noteq> None \<and> gone k then dnsTaskExit m else m)"
| "dnsTaskWait (Suc timeout) gone k m =
     (let m1 = (if dnsTaskHandle m \<noteq> None \<and> gone k then dnsTaskExit m else m)
      in if dnsTaskHandle m1 \<noteq> None then dnsTaskWait timeout gone (Suc k) m1 else m1)"

definition stopDNSServer :: "(nat \<Rightarrow> bool) \<Rightarrow> WiFiManager \<Rightarrow> WiFiManager" where
  "stopDNSServer gone m =
     (if \<not> dnsRunning m then m
      else
        (let m1 = m\<lparr>dnsRunning := False\<rparr>;
             m2 = (if dnsSocket m1 \<ge> 0 then m1\<lparr>dnsSocket := - 1\<rparr> else m1);
             m3 = dnsTaskWait 50 gone 0 m2
         in if dnsTaskHandle m3 \<noteq> None then m3\<lparr>dnsTaskHandle := None\<rparr> else m3))"

definition stopServers :: "bool \<Rightarrow> (nat \<Rightarrow> bool) \<Rightarrow> WiFiManager \<Rightarrow> WiFiManager" where
  "stopServers stop_ok gone m =
     (if \<not> cleanupInProgress m then
        (let m1 = m\<lparr>cleanupInProgress := True\<rparr>;
             m2 = stopHTTPServer stop_ok m1;
             m3 = stopDNSServer gone m2
         in m3\<lparr>cleanupInProgress := False\<rparr>)
      else m)"

section \<open>The parameter registry\<close>

text \<open>
  \<^verbatim>\<open>addParameter\<close>. The pointer is \<open>None\<close> when it is null; \<^verbatim>\<open>WM_MAX_CUSTOM_PARAMS\<close>
  (\<^verbatim>\<open>CONFIG_WM_MAX_CUSTOM_PARAMS\<close> of the build configuration) is a parameter.
\<close>

definition addParameter :: "nat \<Rightarrow> WiFiManagerParameter option \<Rightarrow> WiFiManager \<Rightarrow> WiFiManager" where
  "addParameter WM_MAX_CUSTOM_PARAMS parameter m =
     (case parameter of
        Some p \<Rightarrow>
          if length (params m) < WM_MAX_CUSTOM_PARAMS then m\<lparr>params := params m @ [p]\<rparr> else m
      | None \<Rightarrow> m)"

text \<open>A sequence of \<^verbatim>\<open>addParameter\<close> calls, first call first.\<close>

fun addParameters :: "nat \<Rightarrow> WiFiManagerParameter option list \<Rightarrow> WiFiManager \<Rightarrow> WiFiManager" where
  "addParameters WM_MAX_CUSTOM_PARAMS [] m = m"
| "addParameters WM_MAX_CUSTOM_PARAMS (p # ps) m =
     addParameters WM_MAX_CUSTOM_PARAMS ps (addParameter WM_MAX_CUSTOM_PARAMS p m)"

section \<open>Scan filtering\<close>

text \<open>
  \<^verbatim>\<open>int\<close> is 32 bits wide on the targets; \<open>wrap32\<close> is the two's complement value an
  arithmetic result has in it.
\<close>

definition wrap32 :: "int \<Rightarrow> int" where
  "wrap32 x = signed_take_bit 31 x"

definition calculateSignalQuality :: "int \<Rightarrow> int" where
  "calculateSignalQuality rssi_val =
     (let quality = wrap32 (2 * wrap32 (rssi_val + 100));
          quality = (if quality > 100 then 100 else quality);
          quality = (if quality < 0 then 0 else quality)
      in quality)"

fun isDuplicateSSID :: "string \<Rightarrow> wifi_ap_record_t list \<Rightarrow> bool" where
  "isDuplicateSSID s [] = False"
| "isDuplicateSSID s (ap # results) = (if ssid ap = s then True else isDuplicateSSID s results)"

text \<open>
  The inner loop of \<^verbatim>\<open>filterScanResults\<close> over \<^verbatim>\<open>filtered\<close>: the first entry with the
  SSID of \<open>ap\<close> is overwritten when \<open>ap\<close> is stronger, and the loop breaks there.
\<close>

fun keepStronger :: "wifi_ap_record_t \<Rightarrow> wifi_ap_record_t list \<Rightarrow> wifi_ap_record_t list" where
  "keepStronger ap [] = []"
| "keepStronger ap (existing # rest) =
     (if ssid existing = ssid ap
      then (if sint (rssi ap) > sint (rssi existing) then ap # rest else existing # rest)
      else existing # keepStronger ap rest)"

text \<open>The outer loop, with \<^verbatim>\<open>filtered\<close> as accumulator.\<close>

fun filterLoop ::
  "int \<Rightarrow> bool \<Rightarrow> wifi_ap_record_t list \<Rightarrow> wifi_ap_record_t list \<Rightarrow> wifi_ap_record_t list" where
  "filterLoop minq dedup [] filtered = filtered"
| "filterLoop minq dedup (ap # raw) filtered =
     (if ssid ap = [] then filterLoop minq dedup raw filtered
      else if minq > 0 \<and> calculateSignalQuality (sint (rssi ap)) < minq
      then filterLoop minq dedup raw filtered
      else if dedup \<and> isDuplicateSSID (ssid ap) filtered
      then filterLoop minq dedup raw (keepStronger ap filtered)
      else filterLoop minq dedup raw (filtered @ [ap]))"

text \<open>
  \<^verbatim>\<open>std::sort\<close> with the comparator \<^verbatim>\<open>a.rssi > b.rssi\<close>. The standard leaves the order
  of entries of equal strength open; the insertion sort below is one result it allows,
  and the properties proved of it use only that the result is a permutation in
  descending order.
\<close>

definition sortBySignal :: "wifi_ap_record_t list \<Rightarrow> wifi_ap_record_t list" where
  "sortBySignal xs = sort_key (\<lambda>ap. - sint (rssi ap)) xs"

definition filterScanResults :: "WiFiManager \<Rightarrow> WiFiManager" where
  "filterScanResults m =
     (if rawScanResults m = [] then m
      else m\<lparr>rawScanResults :=
               sortBySignal (filterLoop (minimumQuality m) (removeDuplicateAPs m)
                               (rawScanResults m) [])\<rparr>)"

section \<open>The captive DNS responder\<close>

text \<open>
  The packed \<^verbatim>\<open>dns_header_t\<close> lies over the first 12 bytes of the buffer; its
  \<^verbatim>\<open>uint16_t\<close> fields are read and written in the byte order of the (little-endian)
  targets, and \<^verbatim>\<open>ntohs\<close>, \<^verbatim>\<open>htons\<close> swap the two bytes. \<open>get16\<close> and \<open>set16\<close> are
  used at offsets inside the 12 header bytes of a buffer that holds them.
\<close>

definition get16 :: "nat \<Rightarrow> 8 word list \<Rightarrow> 16 word" where
  "get16 off buf = word_cat (buf ! (off + 1)) (buf ! off)"

definition set16 :: "nat \<Rightarrow> 16 word \<Rightarrow> 8 word list \<Rightarrow> 8 word list" where
  "set16 off w buf = buf[off := ucast w, off + 1 := ucast (drop_bit 8 w)]"

definition ntohs :: "16 word \<Rightarrow> 16 word" where
  "ntohs w = push_bit 8 w OR drop_bit 8 w"

definition htons :: "16 word \<Rightarrow> 16 word" where
  "htons w = push_bit 8 w OR drop_bit 8 w"

definition DNS_FLAG_RESPONSE :: "16 word" where
  "DNS_FLAG_RESPONSE = 0x8000"

definition DNS_FLAG_AA :: "16 word" where
  "DNS_FLAG_AA = 0x0400"

definition DNS_MAX_PACKET_SIZE :: nat where
  "DNS_MAX_PACKET_SIZE = 512"

text \<open>The header rewrite: flags, then \<^verbatim>\<open>ancount = qdcount\<close>, then the two zeroed counts.\<close>

definition dnsHeaderResponse :: "8 word list \<Rightarrow> 8 word list" where
  "dnsHeaderResponse buffer =
     (let b1 = set16 2 (htons (ntohs (get16 2 buffer) OR DNS_FLAG_RESPONSE OR DNS_FLAG_AA)) buffer;
          b2 = set16 6 (get16 4 b1) b1;
          b3 = set16 8 0 b2;
          b4 = set16 10 0 b3
      in b4)"

text \<open>The 16 bytes appended as answer: name pointer, type A, class IN, TTL, length, address.\<close>

definition dnsAnswerRecord :: "8 word list" where
  "dnsAnswerRecord =
     [0xC0, 0x0C, 0x00, 0x01, 0x00, 0x01, 0x00, 0x00, 0x00, 0x3C, 0x00, 0x04, 192, 168, 4, 1]"

text \<open>
  One pass of the receive loop of \<^verbatim>\<open>dnsServerTask\<close> on a datagram: \<^verbatim>\<open>recvfrom\<close> stores
  at most \<^verbatim>\<open>sizeof(buffer) - 1\<close> bytes of it. The result is the datagram passed to
  \<^verbatim>\<open>sendto\<close>, or \<open>None\<close> when nothing is sent.
\<close>

definition dnsServerTask_handle :: "8 word list \<Rightarrow> 8 word list option" where
  "dnsServerTask_handle datagram =
     (let buffer = take (DNS_MAX_PACKET_SIZE - 1) datagram;
          len = length buffer
      in if len > 0 then
           (if len \<ge> 12 then
              (let response = dnsHeaderResponse buffer
               in if len + 16 < DNS_MAX_PACKET_SIZE
                  then Some (response @ dnsAnswerRecord)
                  else Some response)
            else None)
         else None)"

section \<open>Properties of the state machine\<close>

lemma updateState_frame:
  "state m \<noteq> WM_STATE_TRY_STA \<Longrightarrow> state m \<noteq> WM_STATE_RUN_PORTAL \<Longrightarrow> updateState now m = m"
  by (cases "state m") (simp_all add: updateState_def)

lemma updateState_state_cases:
  "state (updateState now m) =
     (if state m = WM_STATE_TRY_STA \<and> now - connectStart m > uint (connectTimeout m)
      then WM_STATE_START_PORTAL
      else if state m = WM_STATE_RUN_PORTAL \<and> portalTimedOut now m
      then WM_STATE_PORTAL_TIMEOUT
      else state m)"
  by (cases "state m") (simp_all add: updateState_def portalTimedOut_def)

lemma updateState_configPortalTimeout [simp]:
  "configPortalTimeout (updateState now m) = configPortalTimeout m"
  by (cases "state m") (simp_all add: updateState_def)

lemma updateState_configPortalStart [simp]:
  "configPortalStart (updateState now m) = configPortalStart m"
  by (cases "state m") (simp_all add: updateState_def)

lemma updateState_saveConfigCallback [simp]:
  "saveConfigCallback (updateState now m) = saveConfigCallback m"
  by (cases "state m") (simp_all add: updateState_def)

lemma process_calls_frame:
  "state m \<noteq> WM_STATE_TRY_STA \<Longrightarrow> state m \<noteq> WM_STATE_RUN_PORTAL \<Longrightarrow> process_calls ts m = m"
  by (induction ts) (simp_all add: process_def Let_def updateState_frame)


lemma wifiEventHandler_no_callback: "snd (wifiEventHandler m e) = []"
  by (cases e) (simp_all add: Let_def)

lemma wifiEventHandler_state:
  "state (fst (wifiEventHandler m e)) = state m
   \<or> (state m = WM_STATE_TRY_STA \<and> state (fst (wifiEventHandler m e)) = WM_STATE_START_PORTAL)"
  by (cases e) (simp_all add: Let_def)

lemma wifiEventHandler_keeps [simp]:
  "saveConfigCallback (fst (wifiEventHandler m e)) = saveConfigCallback m"
  "configPortalTimeout (fst (wifiEventHandler m e)) = configPortalTimeout m"
  "configPortalStart (fst (wifiEventHandler m e)) = configPortalStart m"
  by (cases e; simp add: Let_def)+

lemma ipEventHandler_keeps [simp]:
  "saveConfigCallback (fst (ipEventHandler m e)) = saveConfigCallback m"
  "configPortalTimeout (fst (ipEventHandler m e)) = configPortalTimeout m"
  "configPortalStart (fst (ipEventHandler m e)) = configPortalStart m"
  by (cases e; simp)+

lemma ipEventHandler_other:
  "e \<noteq> IP_EVENT_STA_GOT_IP \<Longrightarrow>
     snd (ipEventHandler m e) = [] \<and> state (fst (ipEventHandler m e)) = state m"
  by (cases e) simp_all

lemma deliver_keeps [simp]:
  "saveConfigCallback (fst (deliver m i)) = saveConfigCallback m"
  "configPortalTimeout (fst (deliver m i)) = configPortalTimeout m"
  "configPortalStart (fst (deliver m i)) = configPortalStart m"
proof -
  show "saveConfigCallback (fst (deliver m i)) = saveConfigCallback m"
    by (cases "(m, i)" rule: deliver.cases) (simp_all add: process_def Let_def)
  show "configPortalTimeout (fst (deliver m i)) = configPortalTimeout m"
    by (cases "(m, i)" rule: deliver.cases) (simp_all add: process_def Let_def)
  show "configPortalStart (fst (deliver m i)) = configPortalStart m"
    by (cases "(m, i)" rule: deliver.cases) (simp_all add: process_def Let_def)
qed

lemma run_Cons:
  "fst (run m (i # rest)) = fst (run (fst (deliver m i)) rest)"
  "snd (run m (i # rest)) = snd (deliver m i) @ snd (run (fst (deliver m i)) rest)"
  by (simp_all add: case_prod_beta Let_def)

lemma run_keeps [simp]:
  "saveConfigCallback (fst (run m ins)) = saveConfigCallback m"
  "configPortalTimeout (fst (run m ins)) = configPortalTimeout m"
  "configPortalStart (fst (run m ins)) = configPortalStart m"
  by (induction ins arbitrary: m; simp add: run_Cons del: run.simps(2))+

lemma deliver_RUN_STA:
  "state (fst (deliver m i)) = WM_STATE_RUN_STA \<Longrightarrow>
     state m = WM_STATE_RUN_STA \<or> i = Event (IpEvent IP_EVENT_STA_GOT_IP)"
proof (cases i)
  case (Tick now)
  assume "state (fst (deliver m i)) = WM_STATE_RUN_STA"
  with Tick show ?thesis
    by (simp add: process_def Let_def updateState_state_cases split: if_splits)
next
  case (Event ev)
  assume st: "state (fst (deliver m i)) = WM_STATE_RUN_STA"
  show ?thesis
  proof (cases ev)
    case (WifiEvent e)
    with Event st wifiEventHandler_state [of m e] show ?thesis by auto
  next
    case (IpEvent e)
    with Event st ipEventHandler_other [of e m] show ?thesis by (cases "e = IP_EVENT_STA_GOT_IP") auto
  qed
qed

lemma deliver_callbacks:
  "snd (deliver m i) =
     (if i = Event (IpEvent IP_EVENT_STA_GOT_IP) \<and> saveConfigCallback m
      then [SaveConfigCallback] else [])"
proof (cases i)
  case (Tick now)
  then show ?thesis by simp
next
  case (Event ev)
  show ?thesis
  proof (cases ev)
    case (WifiEvent e)
    with Event show ?thesis by (simp add: wifiEventHandler_no_callback)
  next
    case (IpEvent e)
    with Event show ?thesis by (cases e) simp_all
  qed
qed

lemma run_RUN_STA:
  "state (fst (run m ins)) = WM_STATE_RUN_STA \<Longrightarrow>
     state m = WM_STATE_RUN_STA \<or> Event (IpEvent IP_EVENT_STA_GOT_IP) \<in> set ins"
proof (induction ins arbitrary: m)
  case Nil
  then show ?case by simp
next
  case (Cons i rest)
  from Cons.prems have "state (fst (run (fst (deliver m i)) rest)) = WM_STATE_RUN_STA"
    by (simp add: run_Cons del: run.simps(2))
  from Cons.IH [OF this] deliver_RUN_STA [of m i] show ?case by auto
qed

lemma run_callbacks:
  "snd (run m ins) =
     replicate (if saveConfigCallback m
                then count_list ins (Event (IpEvent IP_EVENT_STA_GOT_IP)) else 0)
       SaveConfigCallback"
proof (induction ins arbitrary: m)
  case Nil
  then show ?case by simp
next
  case (Cons i rest)
  show ?case
    by (simp add: run_Cons Cons.IH deliver_callbacks del: run.simps(2))
qed

text \<open>
  Claim C1. No event of the \<^verbatim>\<open>WIFI_EVENT\<close> base (link-layer connect and disconnect among
  them) and no tick moves the machine into \<open>WM_STATE_RUN_STA\<close> or invokes the save-config
  callback, and neither does an IP event other than \<open>IP_EVENT_STA_GOT_IP\<close>; the
  IP-acquisition event always sets the state to \<open>WM_STATE_RUN_STA\<close> and the last
  connection result to \<open>WL_CONNECTED\<close>, and invokes the save-config callback exactly when
  one is registered. Over any sequence of ticks and events: the machine ends in
  \<open>WM_STATE_RUN_STA\<close> only if it started there or an IP-acquisition event was delivered,
  and the callbacks invoked are one save-config call for each IP-acquisition event.
\<close>

theorem got_ip_sole_trigger:
  "snd (wifiEventHandler m we) = []
   \<and> (state (fst (wifiEventHandler m we)) = WM_STATE_RUN_STA \<longrightarrow> state m = WM_STATE_RUN_STA)
   \<and> (state (updateState now m) = WM_STATE_RUN_STA \<longrightarrow> state m = WM_STATE_RUN_STA)
   \<and> snd (deliver m (Tick now)) = []
   \<and> (state (snd (process now m)) = WM_STATE_RUN_STA \<longrightarrow> state m = WM_STATE_RUN_STA)
   \<and> (ie \<noteq> IP_EVENT_STA_GOT_IP \<longrightarrow>
        snd (ipEventHandler m ie) = [] \<and> state (fst (ipEventHandler m ie)) = state m)
   \<and> state (fst (ipEventHandler m IP_EVENT_STA_GOT_IP)) = WM_STATE_RUN_STA
   \<and> lastConxResult (fst (ipEventHandler m IP_EVENT_STA_GOT_IP)) = WL_CONNECTED
   \<and> snd (ipEventHandler m IP_EVENT_STA_GOT_IP) =
        (if saveConfigCallback m then [SaveConfigCallback] else [])
   \<and> (state (fst (run m ins)) = WM_STATE_RUN_STA \<longrightarrow>
        state m = WM_STATE_RUN_STA \<or> Event (IpEvent IP_EVENT_STA_GOT_IP) \<in> set ins)
   \<and> snd (run m ins) =
        replicate (if saveConfigCallback m
                   then count_list ins (Event (IpEvent IP_EVENT_STA_GOT_IP)) else 0)
          SaveConfigCallback"
proof -
  have w: "state (fst (wifiEventHandler m we)) = WM_STATE_RUN_STA \<longrightarrow> state m = WM_STATE_RUN_STA"
    using wifiEventHandler_state [of m we] by auto
  have u: "state (updateState now m) = WM_STATE_RUN_STA \<longrightarrow> state m = WM_STATE_RUN_STA"
    by (simp add: updateState_state_cases)
  have p: "state (snd (process now m)) = WM_STATE_RUN_STA \<longrightarrow> state m = WM_STATE_RUN_STA"
    using u by (simp add: process_def Let_def)
  have r: "state (fst (run m ins)) = WM_STATE_RUN_STA \<longrightarrow>
        state m = WM_STATE_RUN_STA \<or> Event (IpEvent IP_EVENT_STA_GOT_IP) \<in> set ins"
    using run_RUN_STA by blast
  from w u p r show ?thesis
    by (simp add: wifiEventHandler_no_callback ipEventHandler_other run_callbacks)
qed

theorem got_ip_sole_trigger_witness:
  "state (fst (run (WiFiManager_ctor 30 180 8 True\<lparr>saveConfigCallback := True\<rparr>)
     [Event (WifiEvent WIFI_EVENT_STA_CONNECTED), Tick 5, Event (IpEvent IP_EVENT_STA_GOT_IP)]))
     = WM_STATE_RUN_STA
   \<and> Event (IpEvent IP_EVENT_STA_GOT_IP)
       \<in> set [Event (WifiEvent WIFI_EVENT_STA_CONNECTED), Tick 5, Event (IpEvent IP_EVENT_STA_GOT_IP)]
   \<and> snd (run (WiFiManager_ctor 30 180 8 True\<lparr>saveConfigCallback := True\<rparr>)
     [Event (WifiEvent WIFI_EVENT_STA_CONNECTED), Tick 5, Event (IpEvent IP_EVENT_STA_GOT_IP)])
     = [SaveConfigCallback]
   \<and> IP_EVENT_STA_LOST_IP \<noteq> IP_EVENT_STA_GOT_IP
   \<and> snd (ipEventHandler (WiFiManager_ctor 30 180 8 True\<lparr>saveConfigCallback := True\<rparr>)
        IP_EVENT_STA_LOST_IP) = []
   \<and> state (fst (ipEventHandler (WiFiManager_ctor 30 180 8 True\<lparr>saveConfigCallback := True\<rparr>)
        IP_EVENT_STA_LOST_IP)) = WM_STATE_INIT"
  using got_ip_sole_trigger [of "WiFiManager_ctor 30 180 8 True\<lparr>saveConfigCallback := True\<rparr>"
      WIFI_EVENT_STA_CONNECTED 5 IP_EVENT_STA_LOST_IP
      "[Event (WifiEvent WIFI_EVENT_STA_CONNECTED), Tick 5, Event (IpEvent IP_EVENT_STA_GOT_IP)]"]
  by (simp add: WiFiManager_ctor_def process_def updateState_def Let_def)

text \<open>
  Claim C2. \<^verbatim>\<open>process()\<close> returns true exactly when the state after its single update is
  \<open>WM_STATE_TRY_STA\<close> or \<open>WM_STATE_RUN_PORTAL\<close> (connecting, or running the portal); in the
  terminal states \<open>WM_STATE_RUN_STA\<close>, \<open>WM_STATE_PORTAL_TIMEOUT\<close> and \<open>WM_STATE_PORTAL_ABORT\<close>
  it returns false.
\<close>

theorem process_true_iff_working:
  "(fst (process now m) \<longleftrightarrow>
      state (snd (process now m)) = WM_STATE_TRY_STA
      \<or> state (snd (process now m)) = WM_STATE_RUN_PORTAL)
   \<and> (state (snd (process now m)) = WM_STATE_RUN_STA
        \<or> state (snd (process now m)) = WM_STATE_PORTAL_TIMEOUT
        \<or> state (snd (process now m)) = WM_STATE_PORTAL_ABORT \<longrightarrow> \<not> fst (process now m))
   \<and> snd (process now m) = updateState now m"
  by (auto simp add: process_def Let_def)

theorem process_true_iff_working_witness:
  "state (snd (process 200000001
       (WiFiManager_ctor 30 180 8 True\<lparr>state := WM_STATE_RUN_PORTAL\<rparr>))) = WM_STATE_PORTAL_TIMEOUT
   \<and> \<not> fst (process 200000001 (WiFiManager_ctor 30 180 8 True\<lparr>state := WM_STATE_RUN_PORTAL\<rparr>))"
  using process_true_iff_working
    [of 200000001 "WiFiManager_ctor 30 180 8 True\<lparr>state := WM_STATE_RUN_PORTAL\<rparr>"]
  by (simp add: WiFiManager_ctor_def process_def updateState_def Let_def)

text \<open>
  Claim C10. \<^verbatim>\<open>updateState\<close> changes the state in two cases only: \<open>WM_STATE_TRY_STA\<close> with
  the connect timeout elapsed becomes \<open>WM_STATE_START_PORTAL\<close>, and \<open>WM_STATE_RUN_PORTAL\<close>
  with a positive portal timeout elapsed becomes \<open>WM_STATE_PORTAL_TIMEOUT\<close>. In every
  other case it returns the manager as it was, all fields included. A machine in
  \<open>WM_STATE_START_PORTAL\<close> therefore stays as it is under any number of \<^verbatim>\<open>process()\<close>
  calls, each of which returns false: ticking alone never starts the portal.
\<close>

theorem updateState_two_transitions:
  "(state (updateState now m) \<noteq> state m \<longrightarrow>
      (state m = WM_STATE_TRY_STA \<and> now - connectStart m > uint (connectTimeout m)
         \<and> state (updateState now m) = WM_STATE_START_PORTAL)
      \<or> (state m = WM_STATE_RUN_PORTAL \<and> configPortalTimeout m > 0
         \<and> now - configPortalStart m > uint (configPortalTimeout m)
         \<and> state (updateState now m) = WM_STATE_PORTAL_TIMEOUT))
   \<and> (state m = WM_STATE_TRY_STA \<and> now - connectStart m > uint (connectTimeout m) \<longrightarrow>
        state (updateState now m) = WM_STATE_START_PORTAL)
   \<and> (state m = WM_STATE_RUN_PORTAL \<and> configPortalTimeout m > 0
        \<and> now - configPortalStart m > uint (configPortalTimeout m) \<longrightarrow>
        state (updateState now m) = WM_STATE_PORTAL_TIMEOUT)
   \<and> (\<not> (state m = WM_STATE_TRY_STA \<and> now - connectStart m > uint (connectTimeout m))
        \<and> \<not> (state m = WM_STATE_RUN_PORTAL \<and> configPortalTimeout m > 0
              \<and> now - configPortalStart m > uint (configPortalTimeout m)) \<longrightarrow>
        updateState now m = m)
   \<and> (state m = WM_STATE_START_PORTAL \<longrightarrow>
        updateState now m = m \<and> process_calls ts m = m \<and> \<not> fst (process now m))"
proof -
  have frame: "\<not> (state m = WM_STATE_TRY_STA \<and> now - connectStart m > uint (connectTimeout m))
        \<and> \<not> (state m = WM_STATE_RUN_PORTAL \<and> configPortalTimeout m > 0
              \<and> now - configPortalStart m > uint (configPortalTimeout m)) \<longrightarrow>
        updateState now m = m"
    by (cases "state m") (simp_all add: updateState_def)
  have start: "state m = WM_STATE_START_PORTAL \<longrightarrow>
        updateState now m = m \<and> process_calls ts m = m \<and> \<not> fst (process now m)"
    by (simp add: updateState_frame process_calls_frame process_def Let_def)
  from frame start show ?thesis
    by (simp add: updateState_state_cases portalTimedOut_def)
qed

theorem updateState_two_transitions_witness:
  "state (WiFiManager_ctor 30 180 8 True\<lparr>state := WM_STATE_START_PORTAL\<rparr>) = WM_STATE_START_PORTAL
   \<and> process_calls [1, 50000000, 900000000]
        (WiFiManager_ctor 30 180 8 True\<lparr>state := WM_STATE_START_PORTAL\<rparr>)
      = WiFiManager_ctor 30 180 8 True\<lparr>state := WM_STATE_START_PORTAL\<rparr>
   \<and> state (WiFiManager_ctor 30 180 8 True\<lparr>state := WM_STATE_TRY_STA\<rparr>) = WM_STATE_TRY_STA
   \<and> 30000001 - connectStart (WiFiManager_ctor 30 180 8 True\<lparr>state := WM_STATE_TRY_STA\<rparr>)
        > uint (connectTimeout (WiFiManager_ctor 30 180 8 True\<lparr>state := WM_STATE_TRY_STA\<rparr>))
   \<and> state (updateState 30000001 (WiFiManager_ctor 30 180 8 True\<lparr>state := WM_STATE_TRY_STA\<rparr>))
        = WM_STATE_START_PORTAL
   \<and> state (updateState 30000001 (WiFiManager_ctor 30 180 8 True\<lparr>state := WM_STATE_TRY_STA\<rparr>))
        \<noteq> state (WiFiManager_ctor 30 180 8 True\<lparr>state := WM_STATE_TRY_STA\<rparr>)
   \<and> updateState 30000000 (WiFiManager_ctor 30 180 8 True\<lparr>state := WM_STATE_TRY_STA\<rparr>)
        = WiFiManager_ctor 30 180 8 True\<lparr>state := WM_STATE_TRY_STA\<rparr>"
  using updateState_two_transitions
      [of 1 "WiFiManager_ctor 30 180 8 True\<lparr>state := WM_STATE_START_PORTAL\<rparr>"
          "[1, 50000000, 900000000]"]
    updateState_two_transitions
      [of 30000001 "WiFiManager_ctor 30 180 8 True\<lparr>state := WM_STATE_TRY_STA\<rparr>" "[]"]
    updateState_two_transitions
      [of 30000000 "WiFiManager_ctor 30 180 8 True\<lparr>state := WM_STATE_TRY_STA\<rparr>" "[]"]
  by (simp add: WiFiManager_ctor_def)

text \<open>
  Claim C4. On a station-disconnect event the last connection result is one of
  \<open>WL_NO_SSID_AVAIL\<close>, \<open>WL_WRONG_PASSWORD\<close>, \<open>WL_CONNECTION_LOST\<close>, \<open>WL_CONNECT_FAILED\<close>; the
  four no-AP-found reasons give \<open>WL_NO_SSID_AVAIL\<close>, the five authentication reasons give
  \<open>WL_WRONG_PASSWORD\<close>, and every reason that the table does not list gives
  \<open>WL_CONNECT_FAILED\<close>.
\<close>

theorem disconnect_reason_classified:
  "lastConxResult (fst (wifiEventHandler m (WIFI_EVENT_STA_DISCONNECTED reason)))
     \<in> {WL_NO_SSID_AVAIL, WL_WRONG_PASSWORD, WL_CONNECTION_LOST, WL_CONNECT_FAILED}
   \<and> (reason \<in> {WIFI_REASON_NO_AP_FOUND, WIFI_REASON_NO_AP_FOUND_W_COMPATIBLE_SECURITY,
                 WIFI_REASON_NO_AP_FOUND_IN_AUTHMODE_THRESHOLD,
                 WIFI_REASON_NO_AP_FOUND_IN_RSSI_THRESHOLD} \<longrightarrow>
        lastConxResult (fst (wifiEventHandler m (WIFI_EVENT_STA_DISCONNECTED reason)))
          = WL_NO_SSID_AVAIL)
   \<and> (reason \<in> {WIFI_REASON_AUTH_EXPIRE, WIFI_REASON_AUTH_LEAVE,
                 WIFI_REASON_4WAY_HANDSHAKE_TIMEOUT, WIFI_REASON_GROUP_KEY_UPDATE_TIMEOUT,
                 WIFI_REASON_802_1X_AUTH_FAILED} \<longrightarrow>
        lastConxResult (fst (wifiEventHandler m (WIFI_EVENT_STA_DISCONNECTED reason)))
          = WL_WRONG_PASSWORD)
   \<and> (reason \<notin> {WIFI_REASON_NO_AP_FOUND, WIFI_REASON_NO_AP_FOUND_W_COMPATIBLE_SECURITY,
                 WIFI_REASON_NO_AP_FOUND_IN_AUTHMODE_THRESHOLD,
                 WIFI_REASON_NO_AP_FOUND_IN_RSSI_THRESHOLD,
                 WIFI_REASON_AUTH_EXPIRE, WIFI_REASON_AUTH_LEAVE,
                 WIFI_REASON_4WAY_HANDSHAKE_TIMEOUT, WIFI_REASON_GROUP_KEY_UPDATE_TIMEOUT,
                 WIFI_REASON_802_1X_AUTH_FAILED} \<longrightarrow>
        lastConxResult (fst (wifiEventHandler m (WIFI_EVENT_STA_DISCONNECTED reason)))
          = WL_CONNECT_FAILED)"
  by (cases reason) (simp_all add: Let_def)

theorem disconnect_reason_classified_witness:
  "WIFI_REASON_OTHER \<notin> {WIFI_REASON_NO_AP_FOUND, WIFI_REASON_NO_AP_FOUND_W_COMPATIBLE_SECURITY,
                 WIFI_REASON_NO_AP_FOUND_IN_AUTHMODE_THRESHOLD,
                 WIFI_REASON_NO_AP_FOUND_IN_RSSI_THRESHOLD,
                 WIFI_REASON_AUTH_EXPIRE, WIFI_REASON_AUTH_LEAVE,
                 WIFI_REASON_4WAY_HANDSHAKE_TIMEOUT, WIFI_REASON_GROUP_KEY_UPDATE_TIMEOUT,
                 WIFI_REASON_802_1X_AUTH_FAILED}
   \<and> lastConxResult (fst (wifiEventHandler
        (WiFiManager_ctor 30 180 8 True\<lparr>state := WM_STATE_TRY_STA\<rparr>)
        (WIFI_EVENT_STA_DISCONNECTED WIFI_REASON_OTHER))) = WL_CONNECT_FAILED
   \<and> lastConxResult (fst (wifiEventHandler
        (WiFiManager_ctor 30 180 8 True\<lparr>state := WM_STATE_TRY_STA\<rparr>)
        (WIFI_EVENT_STA_DISCONNECTED WIFI_REASON_AUTH_LEAVE))) = WL_WRONG_PASSWORD
   \<and> lastConxResult (fst (wifiEventHandler
        (WiFiManager_ctor 30 180 8 True\<lparr>state := WM_STATE_TRY_STA\<rparr>)
        (WIFI_EVENT_STA_DISCONNECTED WIFI_REASON_NO_AP_FOUND))) = WL_NO_SSID_AVAIL"
  using disconnect_reason_classified
      [of "WiFiManager_ctor 30 180 8 True\<lparr>state := WM_STATE_TRY_STA\<rparr>" WIFI_REASON_OTHER]
    disconnect_reason_classified
      [of "WiFiManager_ctor 30 180 8 True\<lparr>state := WM_STATE_TRY_STA\<rparr>" WIFI_REASON_AUTH_LEAVE]
    disconnect_reason_classified
      [of "WiFiManager_ctor 30 180 8 True\<lparr>state := WM_STATE_TRY_STA\<rparr>" WIFI_REASON_NO_AP_FOUND]
  by simp


lemma updateState_no_timeout:
  "configPortalTimeout m = 0 \<Longrightarrow> state m \<noteq> WM_STATE_PORTAL_TIMEOUT \<Longrightarrow>
     state (updateState now m) \<noteq> WM_STATE_PORTAL_TIMEOUT"
  by (simp add: updateState_state_cases portalTimedOut_def)

lemma deliver_no_timeout:
  assumes "configPortalTimeout m = 0" and "state m \<noteq> WM_STATE_PORTAL_TIMEOUT"
  shows "state (fst (deliver m i)) \<noteq> WM_STATE_PORTAL_TIMEOUT"
proof (cases i)
  case (Tick now)
  with assms show ?thesis
    by (simp add: process_def Let_def updateState_no_timeout)
next
  case (Event ev)
  show ?thesis
  proof (cases ev)
    case (WifiEvent e)
    with Event assms wifiEventHandler_state [of m e] show ?thesis by auto
  next
    case (IpEvent e)
    with Event assms show ?thesis by (cases e) simp_all
  qed
qed

lemma run_no_timeout:
  "configPortalTimeout m = 0 \<Longrightarrow> state m \<noteq> WM_STATE_PORTAL_TIMEOUT \<Longrightarrow>
     state (fst (run m ins)) \<noteq> WM_STATE_PORTAL_TIMEOUT"
proof (induction ins arbitrary: m)
  case Nil
  then show ?case by simp
next
  case (Cons i rest)
  have "state (fst (run (fst (deliver m i)) rest)) \<noteq> WM_STATE_PORTAL_TIMEOUT"
    using Cons.prems by (intro Cons.IH) (simp_all add: deliver_no_timeout)
  then show ?case by (simp add: run_Cons del: run.simps(2))
qed

lemma portalWait_no_timeout:
  "configPortalTimeout m = 0 \<Longrightarrow> state m \<noteq> WM_STATE_PORTAL_TIMEOUT \<Longrightarrow>
     portalWait m obs = Some (m', cs) \<Longrightarrow> state m' \<noteq> WM_STATE_PORTAL_TIMEOUT"
proof (induction obs arbitrary: m m' cs)
  case Nil
  then show ?case by (auto split: if_splits)
next
  case (Cons ob rest)
  obtain t1 evs t2 where ob: "ob = (t1, evs, t2)" by (cases ob)
  define m1 where "m1 = fst (run (updateState t1 m) (map Event evs))"
  define cs1 where "cs1 = snd (run (updateState t1 m) (map Event evs))"
  have r: "run (updateState t1 m) (map Event evs) = (m1, cs1)"
    by (simp add: m1_def cs1_def)
  have t0: "configPortalTimeout m1 = 0"
    using Cons.prems(1) by (simp add: m1_def)
  have st1: "state m1 \<noteq> WM_STATE_PORTAL_TIMEOUT"
    unfolding m1_def using Cons.prems(1,2)
    by (intro run_no_timeout) (simp_all add: updateState_no_timeout)
  have nt: "\<not> portalTimedOut t2 m1"
    using t0 by (simp add: portalTimedOut_def)
  show ?case
  proof (cases "state m = WM_STATE_RUN_PORTAL \<or> state m = WM_STATE_TRY_STA")
    case False
    with Cons.prems ob show ?thesis by auto
  next
    case True
    with Cons.prems(3) ob r nt obtain m2 cs2 where "portalWait m1 rest = Some (m2, cs2)" and "m' = m2"
      by (auto split: option.splits)
    with Cons.IH [OF t0 st1] show ?thesis by blast
  qed
qed

lemma portalWait_quiet_forever:
  "configPortalTimeout m = 0 \<Longrightarrow> state m = WM_STATE_RUN_PORTAL \<Longrightarrow>
     portalWait m (map (\<lambda>(t1, t2). (t1, [], t2)) iters) = None"
proof (induction iters)
  case Nil
  then show ?case by simp
next
  case (Cons it rest)
  obtain t1 t2 where it: "it = (t1, t2)" by (cases it)
  have u: "updateState t1 m = m"
    using Cons.prems by (simp add: updateState_def)
  have nt: "\<not> portalTimedOut t2 m"
    using Cons.prems by (simp add: portalTimedOut_def)
  from Cons it u nt show ?case by simp
qed

lemma process_calls_no_timeout:
  "configPortalTimeout m = 0 \<Longrightarrow> state m = WM_STATE_RUN_PORTAL \<Longrightarrow> process_calls ts m = m"
  by (induction ts) (simp_all add: process_def Let_def updateState_def)

lemma portalWait_quiet_iteration:
  assumes "state m = WM_STATE_RUN_PORTAL" and "configPortalTimeout m > 0" and "t1 \<le> t2"
  shows "portalWait m ((t1, [], t2) # rest) =
           (if t2 - configPortalStart m > uint (configPortalTimeout m)
            then Some (m\<lparr>state := WM_STATE_PORTAL_TIMEOUT\<rparr>, [])
            else portalWait m rest)"
proof (cases "t1 - configPortalStart m > uint (configPortalTimeout m)")
  case True
  with assms have u: "updateState t1 m = m\<lparr>state := WM_STATE_PORTAL_TIMEOUT\<rparr>"
    by (simp add: updateState_def)
  from True assms(3) have "t2 - configPortalStart m > uint (configPortalTimeout m)" by simp
  with assms u show ?thesis by (simp add: portalTimedOut_def)
next
  case False
  with assms have u: "updateState t1 m = m"
    by (simp add: updateState_def)
  from assms u show ?thesis
    by (cases "portalWait m rest") (auto simp add: portalTimedOut_def)
qed

text \<open>
  Claim C3. In \<open>WM_STATE_RUN_PORTAL\<close> with a portal timeout of zero, the state stays
  \<open>WM_STATE_RUN_PORTAL\<close> whatever the clock reads: a tick leaves it, any number of
  \<^verbatim>\<open>process()\<close> calls leave the manager as it was, the blocking wait never ends while
  no event arrives, and however it ends it does not end in \<open>WM_STATE_PORTAL_TIMEOUT\<close>.
  With a positive timeout, a tick moves the machine to \<open>WM_STATE_PORTAL_TIMEOUT\<close> exactly
  when the time elapsed since the portal start marker exceeds the timeout, and so does
  an iteration of the blocking wait (its two clock readings in order).
\<close>

theorem portal_timeout_zero_never_positive_exactly:
  "state m = WM_STATE_RUN_PORTAL \<longrightarrow>
     (configPortalTimeout m = 0 \<longrightarrow>
        state (updateState now m) = WM_STATE_RUN_PORTAL
        \<and> process_calls ts m = m
        \<and> portalWait m (map (\<lambda>(t1, t2). (t1, [], t2)) iters) = None
        \<and> (portalWait m obs = Some (m', cs) \<longrightarrow> state m' \<noteq> WM_STATE_PORTAL_TIMEOUT))
     \<and> (configPortalTimeout m > 0 \<longrightarrow>
        (state (updateState now m) = WM_STATE_PORTAL_TIMEOUT
           \<longleftrightarrow> now - configPortalStart m > uint (configPortalTimeout m))
        \<and> (state (updateState now m) = WM_STATE_RUN_PORTAL
           \<longleftrightarrow> \<not> now - configPortalStart m > uint (configPortalTimeout m))
        \<and> (t1 \<le> t2 \<longrightarrow>
             portalWait m ((t1, [], t2) # rest) =
               (if t2 - configPortalStart m > uint (configPortalTimeout m)
                then Some (m\<lparr>state := WM_STATE_PORTAL_TIMEOUT\<rparr>, [])
                else portalWait m rest)))"
proof (intro impI conjI)
  assume s: "state m = WM_STATE_RUN_PORTAL" and z: "configPortalTimeout m = 0"
  show "state (updateState now m) = WM_STATE_RUN_PORTAL"
    using s z by (simp add: updateState_def)
  show "process_calls ts m = m"
    by (rule process_calls_no_timeout [OF z s])
  show "portalWait m (map (\<lambda>(t1, t2). (t1, [], t2)) iters) = None"
    by (rule portalWait_quiet_forever [OF z s])
  show "state m' \<noteq> WM_STATE_PORTAL_TIMEOUT" if "portalWait m obs = Some (m', cs)"
    using portalWait_no_timeout [OF z _ that] s by simp
next
  assume s: "state m = WM_STATE_RUN_PORTAL" and p: "configPortalTimeout m > 0"
  show "(state (updateState now m) = WM_STATE_PORTAL_TIMEOUT)
          = (now - configPortalStart m > uint (configPortalTimeout m))"
    using s p by (simp add: updateState_def)
  show "(state (updateState now m) = WM_STATE_RUN_PORTAL)
          = (\<not> now - configPortalStart m > uint (configPortalTimeout m))"
    using s p by (simp add: updateState_def)
  show "portalWait m ((t1, [], t2) # rest) =
               (if t2 - configPortalStart m > uint (configPortalTimeout m)
                then Some (m\<lparr>state := WM_STATE_PORTAL_TIMEOUT\<rparr>, [])
                else portalWait m rest)" if "t1 \<le> t2"
    by (rule portalWait_quiet_iteration [OF s p that])
qed

theorem portal_timeout_zero_never_positive_exactly_witness:
  "state (WiFiManager_ctor 30 0 8 True\<lparr>state := WM_STATE_RUN_PORTAL\<rparr>) = WM_STATE_RUN_PORTAL
   \<and> configPortalTimeout (WiFiManager_ctor 30 0 8 True\<lparr>state := WM_STATE_RUN_PORTAL\<rparr>) = 0
   \<and> state (updateState 99999999999 (WiFiManager_ctor 30 0 8 True\<lparr>state := WM_STATE_RUN_PORTAL\<rparr>))
       = WM_STATE_RUN_PORTAL
   \<and> state (WiFiManager_ctor 30 180 8 True\<lparr>state := WM_STATE_RUN_PORTAL\<rparr>) = WM_STATE_RUN_PORTAL
   \<and> configPortalTimeout (WiFiManager_ctor 30 180 8 True\<lparr>state := WM_STATE_RUN_PORTAL\<rparr>) > 0
   \<and> (180000000 :: int) \<le> 180000001
   \<and> state (updateState 180000000 (WiFiManager_ctor 30 180 8 True\<lparr>state := WM_STATE_RUN_PORTAL\<rparr>))
       = WM_STATE_RUN_PORTAL
   \<and> state (updateState 180000001 (WiFiManager_ctor 30 180 8 True\<lparr>state := WM_STATE_RUN_PORTAL\<rparr>))
       = WM_STATE_PORTAL_TIMEOUT
   \<and> portalWait (WiFiManager_ctor 30 180 8 True\<lparr>state := WM_STATE_RUN_PORTAL\<rparr>)
        [(180000000, [], 180000001)]
       = Some (WiFiManager_ctor 30 180 8 True\<lparr>state := WM_STATE_PORTAL_TIMEOUT\<rparr>, [])"
  using portal_timeout_zero_never_positive_exactly
      [of "WiFiManager_ctor 30 0 8 True\<lparr>state := WM_STATE_RUN_PORTAL\<rparr>" 99999999999 "[]" "[]" "[]"]
    portal_timeout_zero_never_positive_exactly
      [of "WiFiManager_ctor 30 180 8 True\<lparr>state := WM_STATE_RUN_PORTAL\<rparr>" 180000000]
    portal_timeout_zero_never_positive_exactly
      [of "WiFiManager_ctor 30 180 8 True\<lparr>state := WM_STATE_RUN_PORTAL\<rparr>" 180000001 "[]" "[]" "[]"
          _ _ 180000000 180000001 "[]"]
  by (simp add: WiFiManager_ctor_def)

text \<open>
  The setter stores seconds as microseconds in 32 bits: exact up to 4294 seconds,
  reduced modulo \<open>2\<^sup>3\<^sup>2\<close> beyond.
\<close>

lemma setConfigPortalTimeout_zero:
  "configPortalTimeout (setConfigPortalTimeout 0 m) = 0"
  by (simp add: setConfigPortalTimeout_def)

lemma setConfigPortalTimeout_exact:
  assumes "unat seconds \<le> 4294"
  shows "uint (configPortalTimeout (setConfigPortalTimeout seconds m)) = uint seconds * 1000000"
proof -
  define n where "n = unat seconds * 1000000"
  from assms have "n \<le> 4294 * 1000000" unfolding n_def by (rule mult_le_mono1)
  also have "(4294 * 1000000 :: nat) < 2 ^ LENGTH(32)" by simp
  finally have bound: "n < 2 ^ LENGTH(32)" .
  have un: "unat (word_of_nat n :: 32 word) = n"
    by (rule of_nat_inverse [OF refl bound])
  have "configPortalTimeout (setConfigPortalTimeout seconds m) = word_of_nat n"
    by (simp add: setConfigPortalTimeout_def n_def)
  then have "uint (configPortalTimeout (setConfigPortalTimeout seconds m)) = int n"
    by (simp only: uint_nat un)
  also have "int n = uint seconds * 1000000"
    unfolding n_def uint_nat by (simp only: of_nat_mult of_nat_numeral)
  finally show ?thesis .
qed

lemma setConfigPortalTimeout_wraps:
  "uint (configPortalTimeout (setConfigPortalTimeout 4295 m)) = 32704"
  by (simp add: setConfigPortalTimeout_def)

text \<open>
  The portal start marker: whenever \<^verbatim>\<open>startConfigPortalInternal\<close> returns, the marker is
  the clock reading taken at its entry, also after the blocking wait.
\<close>

lemma portalWait_keeps:
  "portalWait m obs = Some (m', cs) \<Longrightarrow>
     configPortalStart m' = configPortalStart m \<and> configPortalTimeout m' = configPortalTimeout m"
proof (induction obs arbitrary: m m' cs)
  case Nil
  then show ?case by (auto split: if_splits)
next
  case (Cons ob rest)
  obtain t1 evs t2 where ob: "ob = (t1, evs, t2)" by (cases ob)
  define m1 where "m1 = fst (run (updateState t1 m) (map Event evs))"
  define cs1 where "cs1 = snd (run (updateState t1 m) (map Event evs))"
  have r: "run (updateState t1 m) (map Event evs) = (m1, cs1)"
    by (simp add: m1_def cs1_def)
  have k: "configPortalStart m1 = configPortalStart m"
    "configPortalTimeout m1 = configPortalTimeout m"
    by (simp_all add: m1_def)
  show ?case
  proof (cases "state m = WM_STATE_RUN_PORTAL \<or> state m = WM_STATE_TRY_STA")
    case False
    with Cons.prems ob show ?thesis by auto
  next
    case True
    show ?thesis
    proof (cases "portalTimedOut t2 m1")
      case to: True
      with Cons.prems ob r True have "m' = m1\<lparr>state := WM_STATE_PORTAL_TIMEOUT\<rparr>" by auto
      with k show ?thesis by simp
    next
      case nto: False
      with Cons.prems ob r True obtain m2 cs2 where "portalWait m1 rest = Some (m2, cs2)" "m' = m2"
        by (auto split: option.splits)
      with Cons.IH [of m1 m2 cs2] k show ?thesis by simp
    qed
  qed
qed

lemma startConfigPortalInternal_marker:
  assumes "startConfigPortalInternal setup_ok ap_ok httpd_start xTaskCreate now obs m
             = Some (r, m', cs)"
  shows "configPortalStart m' = now"
proof -
  define m1 where "m1 = m\<lparr>state := WM_STATE_START_PORTAL, portalAbortResult := False,
                  configPortalStart := now\<rparr>"
  have h: "configPortalStart (snd (startHTTPServer httpd_start m1)) = now"
    by (simp add: startHTTPServer_def m1_def split: option.splits)
  have d: "\<And>x. configPortalStart (snd (startDNSServer xTaskCreate x)) = configPortalStart x"
    by (simp add: startDNSServer_def split: option.splits)
  show ?thesis
  proof (cases "setup_ok \<and> ap_ok \<and> fst (startHTTPServer httpd_start m1)")
    case False
    with assms show ?thesis
      by (auto simp add: startConfigPortalInternal_def Let_def m1_def startHTTPServer_def
          split: if_splits option.splits prod.splits bool.splits)
  next
    case True
    define m2 where "m2 = snd (startHTTPServer httpd_start m1)"
    define m4 where "m4 = (if captivePortalEnable m2
                              then snd (startDNSServer xTaskCreate m2) else m2)
                            \<lparr>state := WM_STATE_RUN_PORTAL\<rparr>"
    have s: "startHTTPServer httpd_start m1 = (True, m2)"
      using True by (simp add: m2_def prod_eq_iff)
    have m4s: "configPortalStart m4 = now"
      using h d by (simp add: m4_def m2_def)
    show ?thesis
    proof (cases "configPortalBlocking m4")
      case nb: False
      with assms True s have "m' = m4"
        by (simp add: startConfigPortalInternal_def Let_def m1_def [symmetric] m4_def)
      with m4s show ?thesis by simp
    next
      case bl: True
      with assms True s obtain cs' where "portalWait m4 obs = Some (m', cs')"
        by (auto simp add: startConfigPortalInternal_def Let_def m1_def [symmetric] m4_def
            split: option.splits)
      from portalWait_keeps [OF this] m4s show ?thesis by simp
    qed
  qed
qed

section \<open>Properties of the server teardown\<close>

lemma dnsTaskWait_cases:
  "dnsTaskWait n gone k m = m \<or> dnsTaskWait n gone k m = dnsTaskExit m"
proof (induction n arbitrary: k)
  case 0
  show ?case by simp
next
  case (Suc n)
  show ?case
  proof (cases "dnsTaskHandle m \<noteq> None \<and> gone k")
    case True
    then show ?thesis by (simp add: dnsTaskExit_def Let_def)
  next
    case False
    with Suc [of "Suc k"] show ?thesis by (auto simp add: Let_def)
  qed
qed

lemma stopHTTPServer_eq: "stopHTTPServer stop_ok m = m\<lparr>httpServer := None\<rparr>"
  by (cases "httpServer m") (simp_all add: stopHTTPServer_def)

lemma stopDNSServer_eq:
  "stopDNSServer gone m =
     (if dnsRunning m
      then m\<lparr>dnsRunning := False,
             dnsSocket := (if dnsSocket m \<ge> 0 then - 1 else dnsSocket m),
             dnsTaskHandle := None\<rparr>
      else m)"
proof (cases "dnsRunning m")
  case False
  then show ?thesis by (simp add: stopDNSServer_def)
next
  case True
  define m2 where "m2 = m\<lparr>dnsRunning := False,
             dnsSocket := (if dnsSocket m \<ge> 0 then - 1 else dnsSocket m)\<rparr>"
  have neg: "\<not> dnsSocket m2 \<ge> 0" by (simp add: m2_def)
  have ex: "dnsTaskExit m2 = m2\<lparr>dnsTaskHandle := None\<rparr>"
    using neg by (simp add: dnsTaskExit_def)
  have "stopDNSServer gone m =
          (let m3 = dnsTaskWait 50 gone 0 m2
           in if dnsTaskHandle m3 \<noteq> None then m3\<lparr>dnsTaskHandle := None\<rparr> else m3)"
    using True by (simp add: stopDNSServer_def m2_def Let_def)
  also have "\<dots> = m2\<lparr>dnsTaskHandle := None\<rparr>"
    using dnsTaskWait_cases [of 50 gone 0 m2] by (auto simp add: ex Let_def)
  finally show ?thesis using True by (simp add: m2_def)
qed

lemma stopServers_eq:
  "stopServers stop_ok gone m =
     (if cleanupInProgress m then m
      else if dnsRunning m
      then m\<lparr>httpServer := None, dnsRunning := False,
             dnsSocket := (if dnsSocket m \<ge> 0 then - 1 else dnsSocket m),
             dnsTaskHandle := None\<rparr>
      else m\<lparr>httpServer := None\<rparr>)"
  by (simp add: stopServers_def stopHTTPServer_eq stopDNSServer_eq Let_def)

text \<open>
  Claim C8. \<^verbatim>\<open>stopServers\<close> is idempotent: a second call, whatever \<^verbatim>\<open>httpd_stop\<close>
  answers and whatever the DNS task does meanwhile, returns the manager the first call
  left. A call that finds the cleanup flag clear (the flag is set and cleared inside
  \<^verbatim>\<open>stopServers\<close>, under the lock) leaves the HTTP handle null, the DNS-running flag and
  the cleanup flag false, and, the DNS socket being open and the DNS task alive only
  while the DNS server is flagged running, the DNS socket closed (negative) and the
  DNS task gone (its handle null, after the wait or the forced delete). A call on
  servers that are already stopped changes nothing.
\<close>

theorem stopServers_idempotent:
  "stopServers stop_ok' gone' (stopServers stop_ok gone m) = stopServers stop_ok gone m
   \<and> (\<not> cleanupInProgress m \<longrightarrow>
        httpServer (stopServers stop_ok gone m) = None
        \<and> \<not> dnsRunning (stopServers stop_ok gone m)
        \<and> \<not> cleanupInProgress (stopServers stop_ok gone m)
        \<and> (dnsRunning m \<or> dnsSocket m < 0 \<longrightarrow> dnsSocket (stopServers stop_ok gone m) < 0)
        \<and> (dnsRunning m \<or> dnsTaskHandle m = None \<longrightarrow>
             dnsTaskHandle (stopServers stop_ok gone m) = None))
   \<and> (\<not> cleanupInProgress m \<and> httpServer m = None \<and> \<not> dnsRunning m \<longrightarrow>
        stopServers stop_ok gone m = m)"
  by (simp add: stopServers_eq)

theorem stopServers_idempotent_witness:
  "\<not> cleanupInProgress (WiFiManager_ctor 30 180 8 True
        \<lparr>state := WM_STATE_RUN_STA, httpServer := Some 1, dnsTaskHandle := Some 2,
         dnsSocket := 54, dnsRunning := True\<rparr>)
   \<and> dnsRunning (WiFiManager_ctor 30 180 8 True
        \<lparr>state := WM_STATE_RUN_STA, httpServer := Some 1, dnsTaskHandle := Some 2,
         dnsSocket := 54, dnsRunning := True\<rparr>)
   \<and> dnsSocket (stopServers True (\<lambda>k. 3 \<le> k) (WiFiManager_ctor 30 180 8 True
        \<lparr>state := WM_STATE_RUN_STA, httpServer := Some 1, dnsTaskHandle := Some 2,
         dnsSocket := 54, dnsRunning := True\<rparr>)) < 0
   \<and> httpServer (stopServers True (\<lambda>k. 3 \<le> k) (WiFiManager_ctor 30 180 8 True
        \<lparr>state := WM_STATE_RUN_STA, httpServer := Some 1, dnsTaskHandle := Some 2,
         dnsSocket := 54, dnsRunning := True\<rparr>)) = None
   \<and> dnsTaskHandle (stopServers True (\<lambda>k. 3 \<le> k) (WiFiManager_ctor 30 180 8 True
        \<lparr>state := WM_STATE_RUN_STA, httpServer := Some 1, dnsTaskHandle := Some 2,
         dnsSocket := 54, dnsRunning := True\<rparr>)) = None
   \<and> dnsTaskHandle (stopServers True (\<lambda>k. False) (WiFiManager_ctor 30 180 8 True
        \<lparr>state := WM_STATE_RUN_STA, httpServer := Some 1, dnsTaskHandle := Some 2,
         dnsSocket := 54, dnsRunning := True\<rparr>)) = None
   \<and> stopServers False (\<lambda>k. False) (stopServers True (\<lambda>k. 3 \<le> k) (WiFiManager_ctor 30 180 8 True
        \<lparr>state := WM_STATE_RUN_STA, httpServer := Some 1, dnsTaskHandle := Some 2,
         dnsSocket := 54, dnsRunning := True\<rparr>))
      = stopServers True (\<lambda>k. 3 \<le> k) (WiFiManager_ctor 30 180 8 True
        \<lparr>state := WM_STATE_RUN_STA, httpServer := Some 1, dnsTaskHandle := Some 2,
         dnsSocket := 54, dnsRunning := True\<rparr>)
   \<and> \<not> cleanupInProgress (WiFiManager_ctor 30 180 8 True)
   \<and> httpServer (WiFiManager_ctor 30 180 8 True) = None
   \<and> \<not> dnsRunning (WiFiManager_ctor 30 180 8 True)
   \<and> stopServers True (\<lambda>k. True) (WiFiManager_ctor 30 180 8 True) = WiFiManager_ctor 30 180 8 True"
  using stopServers_idempotent [of False "\<lambda>k. False" True "\<lambda>k. 3 \<le> k"
      "WiFiManager_ctor 30 180 8 True
        \<lparr>state := WM_STATE_RUN_STA, httpServer := Some 1, dnsTaskHandle := Some 2,
         dnsSocket := 54, dnsRunning := True\<rparr>"]
    stopServers_idempotent [of False "\<lambda>k. False" True "\<lambda>k. False"
      "WiFiManager_ctor 30 180 8 True
        \<lparr>state := WM_STATE_RUN_STA, httpServer := Some 1, dnsTaskHandle := Some 2,
         dnsSocket := 54, dnsRunning := True\<rparr>"]
    stopServers_idempotent [of True "\<lambda>k. True" True "\<lambda>k. True" "WiFiManager_ctor 30 180 8 True"]
  by (simp add: WiFiManager_ctor_def)

text \<open>
  The conditions of the theorem hold of a new manager and are kept by
  \<^verbatim>\<open>stopServers\<close>.
\<close>

lemma ctor_servers_stopped:
  "\<not> cleanupInProgress (WiFiManager_ctor a b c d)
   \<and> (dnsRunning (WiFiManager_ctor a b c d) \<or> dnsSocket (WiFiManager_ctor a b c d) < 0)
   \<and> (dnsRunning (WiFiManager_ctor a b c d) \<or> dnsTaskHandle (WiFiManager_ctor a b c d) = None)"
  by (simp add: WiFiManager_ctor_def)

lemma stopServers_keeps_inv:
  "\<not> cleanupInProgress m \<Longrightarrow> dnsRunning m \<or> dnsSocket m < 0 \<Longrightarrow>
     \<not> cleanupInProgress (stopServers stop_ok gone m)
     \<and> (dnsRunning (stopServers stop_ok gone m) \<or> dnsSocket (stopServers stop_ok gone m) < 0)"
  by (auto simp add: stopServers_eq)

lemma stopServers_keeps_task_inv:
  "\<not> cleanupInProgress m \<Longrightarrow> dnsRunning m \<or> dnsTaskHandle m = None \<Longrightarrow>
     dnsRunning (stopServers stop_ok gone m) \<or> dnsTaskHandle (stopServers stop_ok gone m) = None"
  by (auto simp add: stopServers_eq)

section \<open>Properties of the parameter registry\<close>

lemma addParameter_length:
  "length (params m) \<le> cap \<Longrightarrow> length (params (addParameter cap p m)) \<le> cap"
  by (cases p) (simp_all add: addParameter_def)

lemma addParameters_length:
  "length (params m) \<le> cap \<Longrightarrow> length (params (addParameters cap ps m)) \<le> cap"
  by (induction ps arbitrary: m) (simp_all add: addParameter_length)

text \<open>
  Claim C9, as stated, fails: \<^verbatim>\<open>addParameter\<close> does not look at identifiers. With room
  for 20 parameters, registering a second parameter under the identifier \<open>''server''\<close>
  takes the registry from one entry to two, and the identifiers are no longer distinct.
\<close>

theorem addParameter_duplicate_id_counterexample:
  "length (params (addParameters 20
      [Some \<lparr>p_id = ''server'', p_placeholder = ''Server'', p_label = ''Server'',
             p_value = ''a'', p_customHTML = [], p_length = 40, p_type = 0\<rparr>]
      (WiFiManager_ctor 30 180 8 True))) = 1
   \<and> ''server'' \<in> set (map p_id (params (addParameters 20
      [Some \<lparr>p_id = ''server'', p_placeholder = ''Server'', p_label = ''Server'',
             p_value = ''a'', p_customHTML = [], p_length = 40, p_type = 0\<rparr>]
      (WiFiManager_ctor 30 180 8 True))))
   \<and> length (params (addParameters 20
      [Some \<lparr>p_id = ''server'', p_placeholder = ''Server'', p_label = ''Server'',
             p_value = ''a'', p_customHTML = [], p_length = 40, p_type = 0\<rparr>,
       Some \<lparr>p_id = ''server'', p_placeholder = ''Other'', p_label = ''Other'',
             p_value = ''b'', p_customHTML = [], p_length = 40, p_type = 0\<rparr>]
      (WiFiManager_ctor 30 180 8 True))) = 2
   \<and> \<not> distinct (map p_id (params (addParameters 20
      [Some \<lparr>p_id = ''server'', p_placeholder = ''Server'', p_label = ''Server'',
             p_value = ''a'', p_customHTML = [], p_length = 40, p_type = 0\<rparr>,
       Some \<lparr>p_id = ''server'', p_placeholder = ''Other'', p_label = ''Other'',
             p_value = ''b'', p_customHTML = [], p_length = 40, p_type = 0\<rparr>]
      (WiFiManager_ctor 30 180 8 True))))"
  by (simp add: addParameter_def WiFiManager_ctor_def)

text \<open>
  Claim C9, amended. The registry is capacity-bounded: over any sequence of
  \<^verbatim>\<open>addParameter\<close> calls its size never exceeds \<^verbatim>\<open>WM_MAX_CUSTOM_PARAMS\<close>; a null
  parameter, and any parameter offered when the registry already holds
  \<^verbatim>\<open>WM_MAX_CUSTOM_PARAMS\<close> entries, is rejected silently (the manager is unchanged);
  every other parameter is appended, whatever its identifier.
\<close>

theorem addParameter_capacity_bounded:
  "(length (params m) \<le> cap \<longrightarrow> length (params (addParameters cap ps m)) \<le> cap)
   \<and> addParameter cap None m = m
   \<and> (cap \<le> length (params m) \<longrightarrow> addParameter cap p m = m)
   \<and> (length (params m) < cap \<longrightarrow>
        params (addParameter cap (Some q) m) = params m @ [q])"
  by (cases p) (simp_all add: addParameter_def addParameters_length)

theorem addParameter_capacity_bounded_witness:
  "length (params (WiFiManager_ctor 30 180 8 True)) \<le> 1
   \<and> length (params (addParameters 1
      [Some \<lparr>p_id = ''server'', p_placeholder = ''Server'', p_label = ''Server'',
             p_value = ''a'', p_customHTML = [], p_length = 40, p_type = 0\<rparr>,
       Some \<lparr>p_id = ''port'', p_placeholder = ''Port'', p_label = ''Port'',
             p_value = ''80'', p_customHTML = [], p_length = 6, p_type = 0\<rparr>]
      (WiFiManager_ctor 30 180 8 True))) \<le> 1
   \<and> length (params (WiFiManager_ctor 30 180 8 True)) < 1
   \<and> params (addParameter 1
      (Some \<lparr>p_id = ''server'', p_placeholder = ''Server'', p_label = ''Server'',
             p_value = ''a'', p_customHTML = [], p_length = 40, p_type = 0\<rparr>)
      (WiFiManager_ctor 30 180 8 True))
     = [\<lparr>p_id = ''server'', p_placeholder = ''Server'', p_label = ''Server'',
             p_value = ''a'', p_customHTML = [], p_length = 40, p_type = 0\<rparr>]"
  using addParameter_capacity_bounded [of "WiFiManager_ctor 30 180 8 True" 1
      "[Some \<lparr>p_id = ''server'', p_placeholder = ''Server'', p_label = ''Server'',
             p_value = ''a'', p_customHTML = [], p_length = 40, p_type = 0\<rparr>,
       Some \<lparr>p_id = ''port'', p_placeholder = ''Port'', p_label = ''Port'',
             p_value = ''80'', p_customHTML = [], p_length = 6, p_type = 0\<rparr>]"
      None
      "\<lparr>p_id = ''server'', p_placeholder = ''Server'', p_label = ''Server'',
             p_value = ''a'', p_customHTML = [], p_length = 40, p_type = 0\<rparr>"]
  by (simp add: WiFiManager_ctor_def)

section \<open>Properties of the scan filter\<close>

lemma wrap32_id: "- (2 ^ 31) \<le> x \<Longrightarrow> x < 2 ^ 31 \<Longrightarrow> wrap32 x = x"
  unfolding wrap32_def by (rule signed_take_bit_int_eq_self)

lemma calculateSignalQuality_range: "0 \<le> calculateSignalQuality r \<and> calculateSignalQuality r \<le> 100"
  by (simp add: calculateSignalQuality_def Let_def)

lemma calculateSignalQuality_clamp:
  assumes "- (2 ^ 30) \<le> r + 100" and "r + 100 < 2 ^ 30"
  shows "calculateSignalQuality r = max 0 (min 100 (2 * (r + 100)))"
proof -
  have a: "wrap32 (r + 100) = r + 100"
    using assms by (intro wrap32_id) simp_all
  have b: "wrap32 (2 * (r + 100)) = 2 * (r + 100)"
    using assms by (intro wrap32_id) simp_all
  have "calculateSignalQuality r =
          (if (if 2 * (r + 100) > 100 then 100 else 2 * (r + 100)) < 0 then 0
           else (if 2 * (r + 100) > 100 then 100 else 2 * (r + 100)))"
    by (simp only: calculateSignalQuality_def Let_def a b)
  then show ?thesis by (simp add: max_def min_def)
qed

lemma calculateSignalQuality_mono_byte:
  fixes a b :: "8 word"
  assumes "sint a \<le> sint b"
  shows "calculateSignalQuality (sint a) \<le> calculateSignalQuality (sint b)"
proof -
  have ra: "- (2 ^ (LENGTH(8) - 1)) \<le> sint a" "sint a < 2 ^ (LENGTH(8) - 1)"
    by (rule sint_ge, rule sint_lt)
  have rb: "- (2 ^ (LENGTH(8) - 1)) \<le> sint b" "sint b < 2 ^ (LENGTH(8) - 1)"
    by (rule sint_ge, rule sint_lt)
  from ra have "calculateSignalQuality (sint a) = max 0 (min 100 (2 * (sint a + 100)))"
    by (intro calculateSignalQuality_clamp) simp_all
  moreover from rb have "calculateSignalQuality (sint b) = max 0 (min 100 (2 * (sint b + 100)))"
    by (intro calculateSignalQuality_clamp) simp_all
  ultimately show ?thesis using assms by simp
qed

text \<open>
  Claim C6. For every signal strength the code computes a quality for, the \<^verbatim>\<open>int8_t\<close>
  RSSI of a scan record (the argument at each call of \<^verbatim>\<open>calculateSignalQuality\<close>), the
  quality equals \<open>clamp(2 * (rssi + 100), 0, 100)\<close>, lies in \<open>0..100\<close> and is a
  monotonically non-decreasing function of the signal strength. The same equation and
  monotonicity hold for every \<^verbatim>\<open>int\<close> value \<open>r\<close> with \<open>-2\<^sup>3\<^sup>0 \<le> r + 100 < 2\<^sup>3\<^sup>0\<close>, where the
  arithmetic stays inside \<^verbatim>\<open>int\<close>, and the bounds \<open>0..100\<close> for every \<^verbatim>\<open>int\<close> value.
\<close>

theorem calculateSignalQuality_clamp_in_range:
  "calculateSignalQuality (sint (b :: 8 word)) = max 0 (min 100 (2 * (sint b + 100)))
   \<and> 0 \<le> calculateSignalQuality (sint b) \<and> calculateSignalQuality (sint b) \<le> 100
   \<and> (sint (a :: 8 word) \<le> sint b \<longrightarrow>
        calculateSignalQuality (sint a) \<le> calculateSignalQuality (sint b))
   \<and> (- (2 ^ 30) \<le> r + 100 \<and> r + 100 < 2 ^ 30 \<longrightarrow>
        calculateSignalQuality r = max 0 (min 100 (2 * (r + 100))))
   \<and> 0 \<le> calculateSignalQuality r' \<and> calculateSignalQuality r' \<le> 100
   \<and> (- (2 ^ 30) \<le> r + 100 \<and> r \<le> r' \<and> r' + 100 < 2 ^ 30 \<longrightarrow>
        calculateSignalQuality r \<le> calculateSignalQuality r')"
proof -
  have mono: "calculateSignalQuality r \<le> calculateSignalQuality r'"
    if "- (2 ^ 30) \<le> r + 100" "r \<le> r'" "r' + 100 < 2 ^ 30"
  proof -
    from that have "calculateSignalQuality r = max 0 (min 100 (2 * (r + 100)))"
      by (intro calculateSignalQuality_clamp) simp_all
    moreover from that have "calculateSignalQuality r' = max 0 (min 100 (2 * (r' + 100)))"
      by (intro calculateSignalQuality_clamp) simp_all
    ultimately show ?thesis using that(2) by simp
  qed
  have "- (2 ^ (LENGTH(8) - 1)) \<le> sint b" "sint b < 2 ^ (LENGTH(8) - 1)"
    by (rule sint_ge, rule sint_lt)
  then have byte: "calculateSignalQuality (sint b) = max 0 (min 100 (2 * (sint b + 100)))"
    by (intro calculateSignalQuality_clamp) simp_all
  have mono_byte: "sint a \<le> sint b \<longrightarrow>
        calculateSignalQuality (sint a) \<le> calculateSignalQuality (sint b)"
    using calculateSignalQuality_mono_byte [of a b] by blast
  from mono byte mono_byte show ?thesis
    using calculateSignalQuality_range [of r'] calculateSignalQuality_range [of "sint b"]
      calculateSignalQuality_clamp [of r] by blast
qed

theorem calculateSignalQuality_clamp_in_range_witness:
  "sint (- 95 :: 8 word) \<le> sint (- 70 :: 8 word)
   \<and> calculateSignalQuality (sint (- 95 :: 8 word)) = 10
   \<and> calculateSignalQuality (sint (- 70 :: 8 word)) = 60
   \<and> calculateSignalQuality (sint (- 95 :: 8 word)) \<le> calculateSignalQuality (sint (- 70 :: 8 word))
   \<and> calculateSignalQuality (sint (- 128 :: 8 word)) = 0
   \<and> calculateSignalQuality (sint (127 :: 8 word)) = 100
   \<and> - (2 ^ 30) \<le> (- 70 :: int) + 100 \<and> (- 70 :: int) + 100 < 2 ^ 30
   \<and> (- 70 :: int) \<le> - 40 \<and> (- 40 :: int) + 100 < 2 ^ 30
   \<and> calculateSignalQuality (- 70) \<le> calculateSignalQuality (- 40)"
  using calculateSignalQuality_clamp_in_range [where b = "- 70" and a = "- 95" and r = "- 70" and r' = "- 40"]
    calculateSignalQuality_clamp_in_range [where b = "- 95" and a = "- 95" and r = 0 and r' = 0]
    calculateSignalQuality_clamp_in_range [where b = "- 128" and a = "- 128" and r = 0 and r' = 0]
    calculateSignalQuality_clamp_in_range [where b = 127 and a = 127 and r = 0 and r' = 0]
  by simp

lemma isDuplicateSSID_iff: "isDuplicateSSID s xs \<longleftrightarrow> s \<in> ssid ` set xs"
  by (induction xs) auto

lemma keepStronger_ssids: "map ssid (keepStronger ap xs) = map ssid xs"
  by (induction xs) simp_all

lemma keepStronger_set: "set (keepStronger ap xs) \<subseteq> insert ap (set xs)"
  by (induction xs) auto

lemma keepStronger_dominates:
  "x \<in> set xs \<Longrightarrow>
     \<exists>y \<in> set (keepStronger ap xs). ssid y = ssid x \<and> sint (rssi x) \<le> sint (rssi y)"
proof (induction xs)
  case Nil
  then show ?case by simp
next
  case (Cons e rest)
  show ?case
  proof (cases "ssid e = ssid ap")
    case True
    with Cons.prems show ?thesis by (cases "x = e") auto
  next
    case False
    with Cons show ?thesis by (cases "x = e") auto
  qed
qed

lemma keepStronger_dominates_new:
  "ssid ap \<in> ssid ` set xs \<Longrightarrow>
     \<exists>y \<in> set (keepStronger ap xs). ssid y = ssid ap \<and> sint (rssi ap) \<le> sint (rssi y)"
proof (induction xs)
  case Nil
  then show ?case by simp
next
  case (Cons e rest)
  show ?case
  proof (cases "ssid e = ssid ap")
    case True
    then show ?thesis by auto
  next
    case False
    with Cons show ?thesis by auto
  qed
qed

lemma filterLoop_step:
  "filterLoop q d (ap # raw) f = filterLoop q d raw f
   \<or> (ssid ap \<noteq> [] \<and> \<not> (q > 0 \<and> calculateSignalQuality (sint (rssi ap)) < q)
       \<and> d \<and> isDuplicateSSID (ssid ap) f
       \<and> filterLoop q d (ap # raw) f = filterLoop q d raw (keepStronger ap f))
   \<or> (ssid ap \<noteq> [] \<and> \<not> (q > 0 \<and> calculateSignalQuality (sint (rssi ap)) < q)
       \<and> \<not> (d \<and> isDuplicateSSID (ssid ap) f)
       \<and> filterLoop q d (ap # raw) f = filterLoop q d raw (f @ [ap]))"
  by simp

lemma filterLoop_subset:
  "set (filterLoop q d raw f) \<subseteq>
     set f \<union> {ap \<in> set raw. ssid ap \<noteq> [] \<and> \<not> (q > 0 \<and> calculateSignalQuality (sint (rssi ap)) < q)}"
proof (induction raw arbitrary: f)
  case Nil
  then show ?case by simp
next
  case (Cons ap raw)
  let ?P = "\<lambda>ap. ssid ap \<noteq> [] \<and> \<not> (q > 0 \<and> calculateSignalQuality (sint (rssi ap)) < q)"
  from filterLoop_step [of q d ap raw f]
  consider (skip) "filterLoop q d (ap # raw) f = filterLoop q d raw f"
    | (dup) "?P ap" "filterLoop q d (ap # raw) f = filterLoop q d raw (keepStronger ap f)"
    | (app) "?P ap" "filterLoop q d (ap # raw) f = filterLoop q d raw (f @ [ap])"
    by blast
  then show ?case
  proof cases
    case skip
    have "set (filterLoop q d raw f) \<subseteq> set f \<union> {ap \<in> set raw. ?P ap}" by (rule Cons.IH)
    also have "\<dots> \<subseteq> set f \<union> {a \<in> set (ap # raw). ?P a}" by auto
    finally show ?thesis unfolding skip .
  next
    case dup
    have "set (filterLoop q d raw (keepStronger ap f))
            \<subseteq> set (keepStronger ap f) \<union> {ap \<in> set raw. ?P ap}" by (rule Cons.IH)
    also have "\<dots> \<subseteq> insert ap (set f) \<union> {ap \<in> set raw. ?P ap}"
      using keepStronger_set [of ap f] by blast
    also have "\<dots> \<subseteq> set f \<union> {a \<in> set (ap # raw). ?P a}" using dup(1) by auto
    finally show ?thesis unfolding dup(2) .
  next
    case app
    have "set (filterLoop q d raw (f @ [ap]))
            \<subseteq> set (f @ [ap]) \<union> {ap \<in> set raw. ?P ap}" by (rule Cons.IH)
    also have "\<dots> \<subseteq> set f \<union> {a \<in> set (ap # raw). ?P a}" using app(1) by auto
    finally show ?thesis unfolding app(2) .
  qed
qed

lemma filterLoop_distinct:
  "distinct (map ssid f) \<Longrightarrow> distinct (map ssid (filterLoop q True raw f))"
proof (induction raw arbitrary: f)
  case Nil
  then show ?case by simp
next
  case (Cons ap raw)
  have a: "distinct (map ssid (keepStronger ap f))"
    using Cons.prems by (simp add: keepStronger_ssids)
  have b: "\<not> isDuplicateSSID (ssid ap) f \<Longrightarrow> distinct (map ssid (f @ [ap]))"
    using Cons.prems by (auto simp add: isDuplicateSSID_iff)
  show ?case
    using Cons.IH [OF Cons.prems] Cons.IH [OF a] Cons.IH [OF b] by simp
qed

lemma filterLoop_dominates_acc:
  "x \<in> set f \<Longrightarrow>
     \<exists>y \<in> set (filterLoop q d raw f). ssid y = ssid x \<and> sint (rssi x) \<le> sint (rssi y)"
proof (induction raw arbitrary: f x)
  case Nil
  then show ?case by auto
next
  case (Cons ap raw)
  have "filterLoop q d (ap # raw) f = filterLoop q d raw f
      \<or> filterLoop q d (ap # raw) f = filterLoop q d raw (keepStronger ap f)
      \<or> filterLoop q d (ap # raw) f = filterLoop q d raw (f @ [ap])"
    by simp
  then consider (skip) "filterLoop q d (ap # raw) f = filterLoop q d raw f"
    | (dup) "filterLoop q d (ap # raw) f = filterLoop q d raw (keepStronger ap f)"
    | (app) "filterLoop q d (ap # raw) f = filterLoop q d raw (f @ [ap])"
    by blast
  then show ?case
  proof cases
    case skip
    with Cons.IH [OF Cons.prems] show ?thesis by simp
  next
    case dup
    from keepStronger_dominates [OF Cons.prems, of ap]
    obtain y where y: "y \<in> set (keepStronger ap f)" "ssid y = ssid x" "sint (rssi x) \<le> sint (rssi y)"
      by blast
    from Cons.IH [OF y(1)]
    obtain z where "z \<in> set (filterLoop q d raw (keepStronger ap f))" "ssid z = ssid y"
      "sint (rssi y) \<le> sint (rssi z)" by blast
    with y dup show ?thesis by (intro bexI [of _ z]) simp_all
  next
    case app
    from Cons.prems have "x \<in> set (f @ [ap])" by simp
    from Cons.IH [OF this] app show ?thesis by simp
  qed
qed

lemma filterLoop_dominates_raw:
  "x \<in> set raw \<Longrightarrow> ssid x \<noteq> [] \<Longrightarrow> \<not> (q > 0 \<and> calculateSignalQuality (sint (rssi x)) < q) \<Longrightarrow>
     \<exists>y \<in> set (filterLoop q d raw f). ssid y = ssid x \<and> sint (rssi x) \<le> sint (rssi y)"
proof (induction raw arbitrary: f)
  case Nil
  then show ?case by simp
next
  case (Cons ap raw)
  show ?case
  proof (cases "x = ap")
    case False
    with Cons.prems have xr: "x \<in> set raw" by simp
    note ih = Cons.IH [OF xr Cons.prems(2,3)]
    from ih [of f] ih [of "keepStronger ap f"] ih [of "f @ [ap]"] show ?thesis
      by (cases d) auto
  next
    case True
    show ?thesis
    proof (cases "d \<and> isDuplicateSSID (ssid ap) f")
      case dup: True
      then have "ssid ap \<in> ssid ` set f" by (simp add: isDuplicateSSID_iff)
      from keepStronger_dominates_new [OF this]
      obtain y where y: "y \<in> set (keepStronger ap f)" "ssid y = ssid ap"
        "sint (rssi ap) \<le> sint (rssi y)" by blast
      from filterLoop_dominates_acc [OF y(1), of q d raw]
      obtain z where "z \<in> set (filterLoop q d raw (keepStronger ap f))" "ssid z = ssid y"
        "sint (rssi y) \<le> sint (rssi z)" by blast
      with y True dup Cons.prems(2,3) show ?thesis
        by (intro bexI [of _ z]) auto
    next
      case nodup: False
      have "ap \<in> set (f @ [ap])" by simp
      from filterLoop_dominates_acc [OF this, of q d raw]
      obtain z where "z \<in> set (filterLoop q d raw (f @ [ap]))" "ssid z = ssid ap"
        "sint (rssi ap) \<le> sint (rssi z)" by blast
      with True nodup Cons.prems(2,3) show ?thesis
        by (intro bexI [of _ z]) auto
    qed
  qed
qed

lemma sortBySignal_mset: "mset (sortBySignal xs) = mset xs"
  by (simp add: sortBySignal_def)

lemma sortBySignal_sorted:
  "sorted_wrt (\<lambda>a b. sint (rssi a) \<ge> sint (rssi b)) (sortBySignal xs)"
proof -
  have "sorted (map (\<lambda>ap. - sint (rssi ap)) (sortBySignal xs))"
    unfolding sortBySignal_def by (rule sorted_sort_key)
  then show ?thesis by (simp add: sorted_wrt_map)
qed

text \<open>
  What follows holds of every permutation of the loop's result, and so of every list
  that \<^verbatim>\<open>std::sort\<close> may leave.
\<close>

lemma filtered_permutation_properties:
  assumes perm: "mset out = mset (filterLoop q d raw [])"
  shows "(\<forall>ap \<in> set out. ap \<in> set raw \<and> ssid ap \<noteq> []
            \<and> \<not> calculateSignalQuality (sint (rssi ap)) < q)
         \<and> (d \<longrightarrow> distinct (map ssid out))
         \<and> (\<forall>x \<in> set raw. ssid x \<noteq> [] \<and> \<not> calculateSignalQuality (sint (rssi x)) < q \<longrightarrow>
               (\<exists>y \<in> set out. ssid y = ssid x \<and> sint (rssi x) \<le> sint (rssi y)))"
proof -
  from perm have s: "set out = set (filterLoop q d raw [])"
    by (rule mset_eq_setD)
  have nonneg: "\<And>r. 0 \<le> calculateSignalQuality r"
    by (simp add: calculateSignalQuality_def Let_def)
  have in_raw: "\<forall>ap \<in> set out. ap \<in> set raw \<and> ssid ap \<noteq> []
            \<and> \<not> calculateSignalQuality (sint (rssi ap)) < q"
  proof
    fix ap assume "ap \<in> set out"
    with s filterLoop_subset [of q d raw "[]"]
    have a: "ap \<in> set raw" "ssid ap \<noteq> []"
      "\<not> (q > 0 \<and> calculateSignalQuality (sint (rssi ap)) < q)" by auto
    with nonneg [of "sint (rssi ap)"] show "ap \<in> set raw \<and> ssid ap \<noteq> []
            \<and> \<not> calculateSignalQuality (sint (rssi ap)) < q" by (cases "q > 0") auto
  qed
  have dist: "d \<longrightarrow> distinct (map ssid out)"
  proof
    assume d
    then have "distinct (map ssid (filterLoop q d raw []))"
      using filterLoop_distinct [of "[]" q raw] by simp
    moreover have "mset (map ssid out) = mset (map ssid (filterLoop q d raw []))"
      using perm by simp
    ultimately show "distinct (map ssid out)"
      using mset_eq_imp_distinct_iff by blast
  qed
  have dom: "\<forall>x \<in> set raw. ssid x \<noteq> [] \<and> \<not> calculateSignalQuality (sint (rssi x)) < q \<longrightarrow>
               (\<exists>y \<in> set out. ssid y = ssid x \<and> sint (rssi x) \<le> sint (rssi y))"
    using filterLoop_dominates_raw [of _ raw q d "[]"] s by auto
  from in_raw dist dom show ?thesis by blast
qed

text \<open>
  With duplicate removal, the entry kept for an SSID is at least as strong as every raw
  entry of that SSID, those below the minimum quality included.
\<close>

lemma filtered_strongest:
  assumes perm: "mset out = mset (filterLoop q True raw [])"
    and y: "y \<in> set out" and x: "x \<in> set raw" and same: "ssid x = ssid y"
  shows "sint (rssi x) \<le> sint (rssi y)"
proof -
  note props = filtered_permutation_properties [OF perm]
  from props y have yp: "ssid y \<noteq> []" "\<not> calculateSignalQuality (sint (rssi y)) < q"
    by blast+
  from props have dist: "distinct (map ssid out)" by blast
  show ?thesis
  proof (cases "calculateSignalQuality (sint (rssi x)) < q")
    case True
    with yp(2) have "calculateSignalQuality (sint (rssi x)) < calculateSignalQuality (sint (rssi y))"
      by simp
    with calculateSignalQuality_mono_byte [of "rssi y" "rssi x"] show ?thesis by fastforce
  next
    case False
    with props x same yp(1)
    obtain y' where y': "y' \<in> set out" "ssid y' = ssid x" "sint (rssi x) \<le> sint (rssi y')"
      by metis
    from dist have "inj_on ssid (set out)" by (simp add: distinct_map)
    with y y' same have "y' = y" by (auto dest: inj_onD)
    with y'(3) show ?thesis by simp
  qed
qed

text \<open>
  Claim C5, as stated, fails when duplicate removal is switched off: two records of
  the same SSID both stay in the result.
\<close>

theorem filterScanResults_duplicates_counterexample:
  "\<not> distinct (map ssid (rawScanResults (filterScanResults
       (WiFiManager_ctor 30 180 8 False
          \<lparr>rawScanResults :=
             [\<lparr>ssid = ''HomeNet'', rssi = - 50, primary = 1, authmode = 3\<rparr>,
              \<lparr>ssid = ''HomeNet'', rssi = - 60, primary = 6, authmode = 3\<rparr>]\<rparr>))))"
  by (simp add: filterScanResults_def WiFiManager_ctor_def sortBySignal_def
      calculateSignalQuality_def wrap32_def Let_def)


text \<open>
  Claim C5, amended. For every raw scan list, minimum quality and duplicate-removal
  flag, every entry of the filtered result is a raw entry with a non-empty SSID and a
  quality not below the minimum; the result is in descending order of RSSI; every raw
  entry that passes the two filters has an entry of its SSID in the result that is at
  least as strong; and when duplicate removal is enabled, no two entries of the result
  share an SSID and the entry retained for an SSID is at least as strong as every raw
  entry of that SSID.
\<close>

theorem filterScanResults_properties:
  "(\<forall>ap \<in> set (rawScanResults (filterScanResults m)).
        ap \<in> set (rawScanResults m) \<and> ssid ap \<noteq> []
        \<and> \<not> calculateSignalQuality (sint (rssi ap)) < minimumQuality m)
   \<and> sorted_wrt (\<lambda>a b. sint (rssi a) \<ge> sint (rssi b)) (rawScanResults (filterScanResults m))
   \<and> (\<forall>x \<in> set (rawScanResults m).
        ssid x \<noteq> [] \<and> \<not> calculateSignalQuality (sint (rssi x)) < minimumQuality m \<longrightarrow>
        (\<exists>y \<in> set (rawScanResults (filterScanResults m)).
           ssid y = ssid x \<and> sint (rssi x) \<le> sint (rssi y)))
   \<and> (removeDuplicateAPs m \<longrightarrow>
        distinct (map ssid (rawScanResults (filterScanResults m)))
        \<and> (\<forall>y \<in> set (rawScanResults (filterScanResults m)). \<forall>x \<in> set (rawScanResults m).
              ssid x = ssid y \<longrightarrow> sint (rssi x) \<le> sint (rssi y)))"
proof (cases "rawScanResults m = []")
  case True
  then show ?thesis by (simp add: filterScanResults_def)
next
  case False
  define loop where
    "loop = filterLoop (minimumQuality m) (removeDuplicateAPs m) (rawScanResults m) []"
  from False have out: "rawScanResults (filterScanResults m) = sortBySignal loop"
    by (simp add: filterScanResults_def loop_def)
  have perm: "mset (sortBySignal loop)
      = mset (filterLoop (minimumQuality m) (removeDuplicateAPs m) (rawScanResults m) [])"
    by (simp add: sortBySignal_mset loop_def)
  note props = filtered_permutation_properties [OF perm]
  have strongest: "\<forall>y \<in> set (sortBySignal loop). \<forall>x \<in> set (rawScanResults m).
              ssid x = ssid y \<longrightarrow> sint (rssi x) \<le> sint (rssi y)" if "removeDuplicateAPs m"
    using filtered_strongest [of "sortBySignal loop" "minimumQuality m" "rawScanResults m"]
      perm that by auto
  show ?thesis
    unfolding out using props sortBySignal_sorted [of loop] strongest by blast
qed

theorem filterScanResults_properties_witness:
  "removeDuplicateAPs (WiFiManager_ctor 30 180 8 True
          \<lparr>rawScanResults :=
             [\<lparr>ssid = ''HomeNet'', rssi = - 60, primary = 1, authmode = 3\<rparr>,
              \<lparr>ssid = [], rssi = - 40, primary = 1, authmode = 0\<rparr>,
              \<lparr>ssid = ''Cafe'', rssi = - 97, primary = 11, authmode = 0\<rparr>,
              \<lparr>ssid = ''Office'', rssi = - 70, primary = 11, authmode = 0\<rparr>,
              \<lparr>ssid = ''HomeNet'', rssi = - 50, primary = 6, authmode = 3\<rparr>]\<rparr>)
   \<and> rawScanResults (filterScanResults (WiFiManager_ctor 30 180 8 True
          \<lparr>rawScanResults :=
             [\<lparr>ssid = ''HomeNet'', rssi = - 60, primary = 1, authmode = 3\<rparr>,
              \<lparr>ssid = [], rssi = - 40, primary = 1, authmode = 0\<rparr>,
              \<lparr>ssid = ''Cafe'', rssi = - 97, primary = 11, authmode = 0\<rparr>,
              \<lparr>ssid = ''Office'', rssi = - 70, primary = 11, authmode = 0\<rparr>,
              \<lparr>ssid = ''HomeNet'', rssi = - 50, primary = 6, authmode = 3\<rparr>]\<rparr>))
       = [\<lparr>ssid = ''HomeNet'', rssi = - 50, primary = 6, authmode = 3\<rparr>,
          \<lparr>ssid = ''Office'', rssi = - 70, primary = 11, authmode = 0\<rparr>]
   \<and> distinct (map ssid (rawScanResults (filterScanResults (WiFiManager_ctor 30 180 8 True
          \<lparr>rawScanResults :=
             [\<lparr>ssid = ''HomeNet'', rssi = - 60, primary = 1, authmode = 3\<rparr>,
              \<lparr>ssid = [], rssi = - 40, primary = 1, authmode = 0\<rparr>,
              \<lparr>ssid = ''Cafe'', rssi = - 97, primary = 11, authmode = 0\<rparr>,
              \<lparr>ssid = ''Office'', rssi = - 70, primary = 11, authmode = 0\<rparr>,
              \<lparr>ssid = ''HomeNet'', rssi = - 50, primary = 6, authmode = 3\<rparr>]\<rparr>))))"
  using filterScanResults_properties [of "WiFiManager_ctor 30 180 8 True
          \<lparr>rawScanResults :=
             [\<lparr>ssid = ''HomeNet'', rssi = - 60, primary = 1, authmode = 3\<rparr>,
              \<lparr>ssid = [], rssi = - 40, primary = 1, authmode = 0\<rparr>,
              \<lparr>ssid = ''Cafe'', rssi = - 97, primary = 11, authmode = 0\<rparr>,
              \<lparr>ssid = ''Office'', rssi = - 70, primary = 11, authmode = 0\<rparr>,
              \<lparr>ssid = ''HomeNet'', rssi = - 50, primary = 6, authmode = 3\<rparr>]\<rparr>"]
  by (simp add: filterScanResults_def WiFiManager_ctor_def sortBySignal_def
      calculateSignalQuality_def wrap32_def Let_def)

section \<open>Properties of the DNS responder\<close>

lemma ucast_word_cat_lo:
  fixes lo hi :: "8 word"
  shows "ucast (word_cat hi lo :: 16 word) = lo"
  by (rule bit_word_eqI) (auto simp add: bit_simps)

lemma ucast_word_cat_hi:
  fixes lo hi :: "8 word"
  shows "ucast (drop_bit 8 (word_cat hi lo :: 16 word)) = hi"
  by (rule bit_word_eqI) (auto simp add: bit_simps)

lemma swap_word_cat:
  fixes lo hi :: "8 word"
  shows "push_bit 8 (word_cat hi lo :: 16 word) OR drop_bit 8 (word_cat hi lo :: 16 word)
           = word_cat lo hi"
  by (rule bit_word_eqI) (auto simp add: bit_simps)

lemma or_word_cat:
  fixes a b c d :: "8 word"
  shows "(word_cat a b :: 16 word) OR word_cat c d = word_cat (a OR c) (b OR d)"
  by (rule bit_word_eqI) (auto simp add: bit_simps)

lemma DNS_FLAG_RESPONSE_bytes: "(0x8000 :: 16 word) = word_cat (0x80 :: 8 word) (0 :: 8 word)"
  by (simp add: word_cat_eq)

lemma DNS_FLAG_AA_bytes: "(0x0400 :: 16 word) = word_cat (0x04 :: 8 word) (0 :: 8 word)"
  by (simp add: word_cat_eq)

lemma flags_bytes:
  fixes lo hi :: "8 word"
  shows "htons (ntohs (word_cat hi lo) OR DNS_FLAG_RESPONSE OR DNS_FLAG_AA)
           = (word_cat hi (lo OR 0x84) :: 16 word)"
proof -
  have "ntohs (word_cat hi lo) OR DNS_FLAG_RESPONSE OR DNS_FLAG_AA
          = (word_cat (lo OR 0x84) hi :: 16 word)"
    unfolding ntohs_def swap_word_cat DNS_FLAG_RESPONSE_def DNS_FLAG_AA_def
      DNS_FLAG_RESPONSE_bytes DNS_FLAG_AA_bytes or_word_cat
    by (simp add: or.assoc)
  then show ?thesis
    by (simp only: htons_def swap_word_cat)
qed


lemma get16_word_cat: "get16 off buf = word_cat (buf ! Suc off) (buf ! off)"
  by (simp add: get16_def)

lemma dnsHeaderResponse_bytes:
  "dnsHeaderResponse (b0 # b1 # b2 # b3 # b4 # b5 # b6 # b7 # b8 # b9 # b10 # b11 # rest)
     = [b0, b1, b2 OR 0x84, b3, b4, b5, b4, b5, 0, 0, 0, 0] @ rest"
proof -
  have s: "\<And>off hi lo buf. set16 off (word_cat hi lo) buf = buf[off := lo, Suc off := hi]"
    by (simp add: set16_def ucast_word_cat_lo ucast_word_cat_hi)
  have z: "\<And>off buf. set16 off 0 buf = buf[off := 0, Suc off := 0]"
    by (simp add: set16_def)
  show ?thesis
    unfolding dnsHeaderResponse_def Let_def get16_word_cat flags_bytes s z
    by (simp add: eval_nat_numeral)
qed

text \<open>
  The responder on any datagram: nothing is sent for fewer than 12 bytes; otherwise the
  bytes come back with the QR and AA bits set, \<^verbatim>\<open>ANCOUNT\<close> copied from \<^verbatim>\<open>QDCOUNT\<close>, the
  other two counts zeroed, and, below 496 bytes, one answer record appended.
\<close>

lemma dnsServerTask_handle_short:
  "length datagram < 12 \<Longrightarrow> dnsServerTask_handle datagram = None"
  by (simp add: dnsServerTask_handle_def DNS_MAX_PACKET_SIZE_def Let_def)

lemma dnsServerTask_handle_answer:
  assumes "length rest < 484"
  shows "dnsServerTask_handle
           (b0 # b1 # b2 # b3 # b4 # b5 # b6 # b7 # b8 # b9 # b10 # b11 # rest)
         = Some ([b0, b1, b2 OR 0x84, b3, b4, b5, b4, b5, 0, 0, 0, 0] @ rest @ dnsAnswerRecord)"
proof -
  let ?d = "b0 # b1 # b2 # b3 # b4 # b5 # b6 # b7 # b8 # b9 # b10 # b11 # rest"
  have t: "take (DNS_MAX_PACKET_SIZE - 1) ?d = ?d"
    using assms unfolding DNS_MAX_PACKET_SIZE_def by (intro take_all) simp
  show ?thesis
    unfolding dnsServerTask_handle_def Let_def t dnsHeaderResponse_bytes
    using assms by (simp add: DNS_MAX_PACKET_SIZE_def)
qed

lemma dnsServerTask_handle_no_room:
  assumes "484 \<le> length rest" and "length rest \<le> 499"
  shows "dnsServerTask_handle
           (b0 # b1 # b2 # b3 # b4 # b5 # b6 # b7 # b8 # b9 # b10 # b11 # rest)
         = Some ([b0, b1, b2 OR 0x84, b3, b4, b5, b4, b5, 0, 0, 0, 0] @ rest)"
proof -
  let ?d = "b0 # b1 # b2 # b3 # b4 # b5 # b6 # b7 # b8 # b9 # b10 # b11 # rest"
  have t: "take (DNS_MAX_PACKET_SIZE - 1) ?d = ?d"
    using assms unfolding DNS_MAX_PACKET_SIZE_def by (intro take_all) simp
  show ?thesis
    unfolding dnsServerTask_handle_def Let_def t dnsHeaderResponse_bytes
    using assms by (simp add: DNS_MAX_PACKET_SIZE_def)
qed

text \<open>
  Claim C7 at a query with two questions (\<open>a\<close> and \<open>b\<close>, type A, class IN): the
  response announces two answers (\<^verbatim>\<open>ANCOUNT = QDCOUNT = 2\<close>) and carries one answer
  record, the 16 bytes appended after the second question.
\<close>

theorem dns_two_questions_one_answer:
  "dnsServerTask_handle
     [0x12, 0x34, 0x01, 0x00, 0x00, 0x02, 0x00, 0x00, 0x00, 0x00, 0x00, 0x00,
      0x01, 0x61, 0x00, 0x00, 0x01, 0x00, 0x01,
      0x01, 0x62, 0x00, 0x00, 0x01, 0x00, 0x01]
   = Some
     ([0x12, 0x34, 0x85, 0x00, 0x00, 0x02, 0x00, 0x02, 0x00, 0x00, 0x00, 0x00,
       0x01, 0x61, 0x00, 0x00, 0x01, 0x00, 0x01,
       0x01, 0x62, 0x00, 0x00, 0x01, 0x00, 0x01]
      @ [0xC0, 0x0C, 0x00, 0x01, 0x00, 0x01, 0x00, 0x00, 0x00, 0x3C, 0x00, 0x04, 192, 168, 4, 1])"
  by (simp add: dnsServerTask_handle_answer dnsAnswerRecord_def)

end
